theory Spec2Isabelle
  imports Main "HOL-Library.Multiset"
begin

section \<open>Text primitives of the reconciliation engine\<close>

text \<open>
  The engine of \<^verbatim>\<open>core_reconciliation.py\<close> works on pandas tables whose cells are read
  as text. A Python \<^verbatim>\<open>str\<close> is modelled as a \<^typ>\<open>string\<close>; the character classes
  below are the ASCII part of what Python's \<^verbatim>\<open>str.strip\<close>, \<^verbatim>\<open>str.upper\<close>,
  \<^verbatim>\<open>str.lower\<close> and the regular-expression classes \<^verbatim>\<open>\d\<close>, \<^verbatim>\<open>\w\<close> accept.
  Code points beyond ASCII (for instance the non-ASCII decimal digits that \<^verbatim>\<open>\d\<close> also
  accepts) are outside the model.
\<close>

definition isdigit :: "char \<Rightarrow> bool" where
  "isdigit c = (c \<in> set ''0123456789'')"

definition ascii_lowercase :: string where
  "ascii_lowercase = ''abcdefghijklmnopqrstuvwxyz''"

definition ascii_uppercase :: string where
  "ascii_uppercase = ''ABCDEFGHIJKLMNOPQRSTUVWXYZ''"

definition isalnum :: "char \<Rightarrow> bool" where
  "isalnum c = (isdigit c \<or> c \<in> set ascii_lowercase \<or> c \<in> set ascii_uppercase)"

text \<open>A word character of \<^verbatim>\<open>\b\<close> and \<^verbatim>\<open>\w\<close>.\<close>

definition isword :: "char \<Rightarrow> bool" where
  "isword c = (isalnum c \<or> c = CHR ''_'')"

text \<open>The characters \<^verbatim>\<open>str.strip()\<close> removes: tab, LF, VT, FF, CR, FS, GS, RS, US, space.\<close>

definition isspace :: "char \<Rightarrow> bool" where
  "isspace c = (c \<in> set [CHR 0x09, CHR 0x0A, CHR 0x0B, CHR 0x0C, CHR 0x0D,
                          CHR 0x1C, CHR 0x1D, CHR 0x1E, CHR 0x1F, CHR 0x20])"

definition strip :: "string \<Rightarrow> string" where
  "strip s = rev (dropWhile isspace (rev (dropWhile isspace s)))"

definition upper_char :: "char \<Rightarrow> char" where
  "upper_char c = (case map_of (zip ascii_lowercase ascii_uppercase) c of Some u \<Rightarrow> u | None \<Rightarrow> c)"

definition lower_char :: "char \<Rightarrow> char" where
  "lower_char c = (case map_of (zip ascii_uppercase ascii_lowercase) c of Some l \<Rightarrow> l | None \<Rightarrow> c)"

definition upper :: "string \<Rightarrow> string" where
  "upper s = map upper_char s"

definition lower :: "string \<Rightarrow> string" where
  "lower s = map lower_char s"

text \<open>\<^verbatim>\<open>s.startswith(p)\<close> and \<^verbatim>\<open>s.endswith(p)\<close>.\<close>

definition startswith :: "string \<Rightarrow> string \<Rightarrow> bool" where
  "startswith s p = (take (length p) s = p)"

definition endswith :: "string \<Rightarrow> string \<Rightarrow> bool" where
  "endswith s p = (length p \<le> length s \<and> drop (length s - length p) s = p)"

text \<open>\<^verbatim>\<open>p in s\<close> on strings: \<open>p\<close> occurs as a contiguous piece of \<open>s\<close>.\<close>

fun contains :: "string \<Rightarrow> string \<Rightarrow> bool" where
  "contains [] p = (p = [])"
| "contains (c # cs) p = (startswith (c # cs) p \<or> contains cs p)"

subsection \<open>The regular expressions of \<^verbatim>\<open>config.py\<close>\<close>

text \<open>
  \<^verbatim>\<open>RMA_STRICT_RX = ^\d{8}$\<close> and \<^verbatim>\<open>RMA_PREF6_RX = ^6\d{7}$\<close>, both used with
  \<^verbatim>\<open>fullmatch\<close>: the whole string is eight digits (the first one a 6).
\<close>

definition RMA_STRICT_RX_fullmatch :: "string \<Rightarrow> bool" where
  "RMA_STRICT_RX_fullmatch s = (length s = 8 \<and> list_all isdigit s)"

definition RMA_PREF6_RX_fullmatch :: "string \<Rightarrow> bool" where
  "RMA_PREF6_RX_fullmatch s = (length s = 8 \<and> startswith s ''6'' \<and> list_all isdigit (drop 1 s))"

text \<open>
  \<^verbatim>\<open>RMA_ANY8_IN_TEXT_RX = (?<!\d)\d{8}(?!\d)\<close>. A match starts where the character
  before (if any) is no digit, the next eight characters are digits and the character
  after them (if any) is no digit. \<open>prev\<close> is the character before the position.
\<close>

definition any8_match_at :: "char option \<Rightarrow> string \<Rightarrow> bool" where
  "any8_match_at prev s =
     ((case prev of None \<Rightarrow> True | Some p \<Rightarrow> \<not> isdigit p)
      \<and> 8 \<le> length s \<and> list_all isdigit (take 8 s)
      \<and> (case drop 8 s of [] \<Rightarrow> True | n # _ \<Rightarrow> \<not> isdigit n))"

text \<open>
  The scan of \<^verbatim>\<open>finditer\<close>/\<^verbatim>\<open>findall\<close>: left to right, matches do not overlap; after a
  match the scan goes on behind it, otherwise one character further. Each match is
  returned with its start offset in the text.
\<close>

fun any8_scan :: "nat \<Rightarrow> char option \<Rightarrow> string \<Rightarrow> (nat \<times> string) list" where
  "any8_scan i prev [] = []"
| "any8_scan i prev (c # cs) =
     (if any8_match_at prev (c # cs)
      then (i, take 8 (c # cs)) # any8_scan (i + 8) (Some (last (take 8 (c # cs)))) (drop 7 cs)
      else any8_scan (i + 1) (Some c) cs)"

definition RMA_ANY8_IN_TEXT_RX_finditer :: "string \<Rightarrow> (nat \<times> string) list" where
  "RMA_ANY8_IN_TEXT_RX_finditer s = any8_scan 0 None s"

definition RMA_ANY8_IN_TEXT_RX_findall :: "string \<Rightarrow> string list" where
  "RMA_ANY8_IN_TEXT_RX_findall s = map snd (RMA_ANY8_IN_TEXT_RX_finditer s)"

text \<open>
  \<^verbatim>\<open>UPS_TN_REGEX = \b1Z[0-9A-Z]{16}\b\<close> with \<^verbatim>\<open>re.IGNORECASE\<close>: a word boundary, the
  digit 1, a letter Z of either case, sixteen letters or digits, a word boundary.
\<close>

definition ups_tn_match_at :: "char option \<Rightarrow> string \<Rightarrow> bool" where
  "ups_tn_match_at prev s =
     ((case prev of None \<Rightarrow> True | Some p \<Rightarrow> \<not> isword p)
      \<and> 18 \<le> length s
      \<and> s ! 0 = CHR ''1'' \<and> upper_char (s ! 1) = CHR ''Z''
      \<and> list_all isalnum (take 16 (drop 2 s))
      \<and> (case drop 18 s of [] \<Rightarrow> True | n # _ \<Rightarrow> \<not> isword n))"

fun ups_tn_scan :: "char option \<Rightarrow> string \<Rightarrow> string list" where
  "ups_tn_scan prev [] = []"
| "ups_tn_scan prev (c # cs) =
     (if ups_tn_match_at prev (c # cs)
      then take 18 (c # cs) # ups_tn_scan (Some (last (take 18 (c # cs)))) (drop 17 cs)
      else ups_tn_scan (Some c) cs)"

definition UPS_TN_REGEX_findall :: "string \<Rightarrow> string list" where
  "UPS_TN_REGEX_findall s = ups_tn_scan None s"

subsection \<open>De-duplication and ranking of tokens\<close>

text \<open>
  The loop \<^verbatim>\<open>for t in tokens: if t not in seen: seen.add(t); ordered.append(t)\<close>
  of \<^verbatim>\<open>_clean_rma_string\<close> and \<^verbatim>\<open>extract_all_rma_tokens_from_row\<close>; \<open>seen\<close> always holds
  the elements of \<open>ordered\<close>.
\<close>

fun dedup_loop :: "string list \<Rightarrow> string list \<Rightarrow> string list" where
  "dedup_loop ordered [] = ordered"
| "dedup_loop ordered (t # ts) =
     (if t \<in> set ordered then dedup_loop ordered ts else dedup_loop (ordered @ [t]) ts)"

text \<open>
  The three comprehensions \<^verbatim>\<open>pref6\<close>, \<^verbatim>\<open>pref7\<close>, \<^verbatim>\<open>rest\<close> and their concatenation
  \<^verbatim>\<open>pref6 + pref7 + rest\<close> (the spec's \<open>rankTokens\<close>).
\<close>

definition rank_tokens :: "string list \<Rightarrow> string list" where
  "rank_tokens ordered =
     (let pref6 = filter (\<lambda>x. startswith x ''6'') ordered;
          pref7 = filter (\<lambda>x. startswith x ''7'') ordered;
          rest = filter (\<lambda>x. \<not> (startswith x ''6'' \<or> startswith x ''7'')) ordered
      in pref6 @ pref7 @ rest)"

text \<open>The priority class of a token: 0 for a leading 6, 1 for a leading 7, 2 otherwise.\<close>

definition prefix_class :: "string \<Rightarrow> nat" where
  "prefix_class x = (if startswith x ''6'' then 0 else if startswith x ''7'' then 1 else 2)"

section \<open>Cells and tables\<close>

text \<open>
  \<^verbatim>\<open>str(n)\<close> of an integer: its decimal digits, with a minus sign before a negative
  number.
\<close>

fun nat_digits :: "nat \<Rightarrow> string" where
  "nat_digits n =
     (if n < 10 then [''0123456789'' ! n]
      else nat_digits (n div 10) @ [''0123456789'' ! (n mod 10)])"

declare nat_digits.simps [simp del]

definition int_str :: "int \<Rightarrow> string" where
  "int_str i = (if i < 0 then CHR ''-'' # nat_digits (nat (- i)) else nat_digits (nat i))"

text \<open>
  A cell of a pandas table as the engine sees it: Python's \<^verbatim>\<open>None\<close>, the float NaN that
  pandas puts where a value is missing, a text, an integer or a truth value. A float
  other than NaN is not a cell of the model, since its text needs the formatting of
  floating-point numbers; to the engine the float \<^verbatim>\<open>0.0\<close> is what the integer
  \<^verbatim>\<open>0\<close> is, a false value whose text is not blank.
\<close>

datatype cell = PyNone | NaN | Str string | PyInt int | PyBool bool

text \<open>\<^verbatim>\<open>str(value)\<close>.\<close>

fun py_str :: "cell \<Rightarrow> string" where
  "py_str PyNone = ''None''"
| "py_str NaN = ''nan''"
| "py_str (Str s) = s"
| "py_str (PyInt i) = int_str i"
| "py_str (PyBool b) = (if b then ''True'' else ''False'')"

text \<open>
  Truth value of a cell: \<^verbatim>\<open>None\<close>, the empty text, the number zero and \<^verbatim>\<open>False\<close>
  are false, NaN is true.
\<close>

fun truthy :: "cell \<Rightarrow> bool" where
  "truthy PyNone = False"
| "truthy NaN = True"
| "truthy (Str s) = (s \<noteq> [])"
| "truthy (PyInt i) = (i \<noteq> 0)"
| "truthy (PyBool b) = b"

text \<open>\<^verbatim>\<open>value or ""\<close>.\<close>

definition or_empty :: "cell \<Rightarrow> cell" where
  "or_empty v = (if truthy v then v else Str [])"

text \<open>
  \<^verbatim>\<open>pd.isna(value)\<close>, which on these cells is also the test
  \<^verbatim>\<open>value is None or (isinstance(value, float) and pd.isna(value))\<close>.
\<close>

fun isna :: "cell \<Rightarrow> bool" where
  "isna PyNone = True"
| "isna NaN = True"
| "isna (Str s) = False"
| "isna (PyInt i) = False"
| "isna (PyBool b) = False"

text \<open>
  A \<^verbatim>\<open>DataFrame\<close>: the column labels and the rows, each row holding one cell per
  column. pandas keeps every row as long as the label list; the model is meant for
  tables with that shape and with pairwise distinct labels (\<open>wf_table\<close>).
  An absent table (\<^verbatim>\<open>None\<close>) is not a value of this type, so the \<^verbatim>\<open>is None\<close> guards
  of the source have no branch here.
\<close>

record table =
  columns :: "string list"
  rows :: "cell list list"

definition aligned :: "table \<Rightarrow> bool" where
  "aligned df = list_all (\<lambda>r. length r = length (columns df)) (rows df)"

definition wf_table :: "table \<Rightarrow> bool" where
  "wf_table df = (distinct (columns df) \<and> aligned df)"

text \<open>\<^verbatim>\<open>df.empty\<close>: one of the two axes has length 0.\<close>

definition df_empty :: "table \<Rightarrow> bool" where
  "df_empty df = (columns df = [] \<or> rows df = [])"

text \<open>A row against the labels: the cell under the first label equal to \<open>c\<close>.\<close>

fun row_lookup :: "string list \<Rightarrow> cell list \<Rightarrow> string \<Rightarrow> cell option" where
  "row_lookup (k # ks) (v # vs) c = (if k = c then Some v else row_lookup ks vs c)"
| "row_lookup _ _ c = None"

text \<open>\<^verbatim>\<open>row.get(c, default)\<close>.\<close>

definition row_get :: "string list \<Rightarrow> cell list \<Rightarrow> string \<Rightarrow> cell \<Rightarrow> cell" where
  "row_get cols r c d = (case row_lookup cols r c of Some v \<Rightarrow> v | None \<Rightarrow> d)"

text \<open>Replacing the cell under label \<open>c\<close> of one row.\<close>

fun update_cell :: "string list \<Rightarrow> string \<Rightarrow> (cell \<Rightarrow> cell) \<Rightarrow> cell list \<Rightarrow> cell list" where
  "update_cell (k # ks) c f (v # vs) = (if k = c then f v # vs else v # update_cell ks c f vs)"
| "update_cell _ c f vs = vs"

text \<open>
  \<^verbatim>\<open>df[c] = ...\<close> with one value per row, computed from the row as it was: an existing
  column is overwritten in its place, a new one is appended.
\<close>

definition assign_column :: "string \<Rightarrow> (cell list \<Rightarrow> cell) \<Rightarrow> table \<Rightarrow> table" where
  "assign_column c f df =
     (if c \<in> set (columns df)
      then df\<lparr>rows := map (\<lambda>r. update_cell (columns df) c (\<lambda>_. f r) r) (rows df)\<rparr>
      else \<lparr>columns = columns df @ [c], rows = map (\<lambda>r. r @ [f r]) (rows df)\<rparr>)"

text \<open>\<^verbatim>\<open>if c not in df.columns: df[c] = ""\<close>.\<close>

definition ensure_column :: "string \<Rightarrow> table \<Rightarrow> table" where
  "ensure_column c df = (if c \<notin> set (columns df) then assign_column c (\<lambda>_. Str []) df else df)"

text \<open>\<^verbatim>\<open>df.drop(columns=[c])\<close> for a label that is present.\<close>

definition drop_column :: "string \<Rightarrow> table \<Rightarrow> table" where
  "drop_column c df =
     \<lparr>columns = filter (\<lambda>k. k \<noteq> c) (columns df),
      rows = map (\<lambda>r. map snd (filter (\<lambda>(k, v). k \<noteq> c) (zip (columns df) r))) (rows df)\<rparr>"

text \<open>\<^verbatim>\<open>if c in df.columns: df = df.drop(columns=[c])\<close>.\<close>

definition drop_if_present :: "string \<Rightarrow> table \<Rightarrow> table" where
  "drop_if_present c df = (if c \<in> set (columns df) then drop_column c df else df)"

text \<open>\<^verbatim>\<open>df[mask]\<close>: the rows whose mask entry is true.\<close>

definition filter_rows :: "(cell list \<Rightarrow> bool) \<Rightarrow> table \<Rightarrow> table" where
  "filter_rows keep df = df\<lparr>rows := filter keep (rows df)\<rparr>"

datatype py_error = KeyError string

text \<open>\<^verbatim>\<open>df[cols]\<close> with a list of labels: a missing label raises \<^verbatim>\<open>KeyError\<close>.\<close>

definition select_columns :: "string list \<Rightarrow> table \<Rightarrow> py_error + table" where
  "select_columns cs df =
     (case filter (\<lambda>c. c \<notin> set (columns df)) cs of
        c # _ \<Rightarrow> Inl (KeyError c)
      | [] \<Rightarrow> Inr \<lparr>columns = cs,
                   rows = map (\<lambda>r. map (\<lambda>c. row_get (columns df) r c PyNone) cs) (rows df)\<rparr>)"

section \<open>Normalization helpers\<close>

text \<open>\<^verbatim>\<open>_norm_na\<close>.\<close>

definition norm_na :: "cell \<Rightarrow> string" where
  "norm_na v =
     (if v = PyNone then ''N/A''
      else let text = strip (py_str v) in
        if text = [] then ''N/A''
        else let low = lower text in
          if low \<in> {''nan'', ''none''} \<or> contains low ''not avail'' then ''N/A''
          else text)"

text \<open>\<^verbatim>\<open>_to_str\<close>.\<close>

definition to_str :: "cell \<Rightarrow> bool \<Rightarrow> string" where
  "to_str v drop_na = (let w = norm_na v in if drop_na \<and> w = ''N/A'' then [] else w)"

text \<open>
  \<^verbatim>\<open>_clean_rma_string\<close>. The index \<^verbatim>\<open>[0]\<close> of the source is taken on a list that is
  not empty, since \<open>tokens\<close> is not (lemma \<open>clean_rma_string_index_defined\<close> below).
\<close>

definition clean_rma_string :: "cell \<Rightarrow> string" where
  "clean_rma_string v =
     (if isna v then []
      else let s = strip (py_str v);
               s = (if endswith s ''.0'' then take (length s - 2) s else s);
               tokens = RMA_ANY8_IN_TEXT_RX_findall s in
        if tokens = [] then []
        else (case rank_tokens (dedup_loop [] tokens) of x # _ \<Rightarrow> x | [] \<Rightarrow> []))"

text \<open>\<^verbatim>\<open>normalize_rma_column_inplace\<close>, returning the table it has changed.\<close>

definition normalize_rma_column_inplace :: "table \<Rightarrow> table" where
  "normalize_rma_column_inplace df =
     (if ''RMA Number'' \<in> set (columns df)
      then assign_column ''RMA Number''
             (\<lambda>r. Str (clean_rma_string (row_get (columns df) r ''RMA Number'' PyNone))) df
      else df)"

text \<open>\<^verbatim>\<open>_extract_tn_list\<close>.\<close>

definition extract_tn_list :: "cell \<Rightarrow> string list" where
  "extract_tn_list text = (if isna text then [] else map upper (UPS_TN_REGEX_findall (py_str text)))"

text \<open>\<^verbatim>\<open>_canonical_status\<close>.\<close>

definition canonical_status :: "cell \<Rightarrow> string" where
  "canonical_status v =
     (let s = lower (strip (py_str (or_empty v))) in
      if contains s ''delivered'' then ''Delivered''
      else if contains s ''exception'' then ''Exception''
      else if contains s ''in transit'' then ''In Transit''
      else if contains s ''out for delivery'' \<or> contains s ''out of delivery'' then ''Out for Delivery''
      else if contains s ''manifest'' then ''Manifest''
      else if contains s ''void'' then ''Void''
      else if contains s ''not avail'' \<or> s = [] then ''N/A''
      else (let t = strip (py_str v) in if t = [] then ''N/A'' else t))"

section \<open>Column harmonization\<close>

text \<open>The dictionary \<^verbatim>\<open>mapping\<close> of \<^verbatim>\<open>map_new_columns\<close>, in its order.\<close>

definition mapping :: "(string \<times> string) list" where
  "mapping =
    [(''manifest date'', ''Manifest Date''),
     (''package reference no. 1'', ''Package Reference No. 1''),
     (''package reference no. 2'', ''Package Reference No. 2''),
     (''rma number'', ''RMA Number''),
     (''tracking number'', ''Tracking Number''),
     (''tracking number - details'', ''Tracking Number - Details''),
     (''status'', ''Status''),
     (''shipper name'', ''Shipper Name''),
     (''ship to'', ''Ship To''),
     (''scheduled delivery'', ''Scheduled Delivery''),
     (''original scheduled delivery date'', ''Original Scheduled Delivery Date''),
     (''date delivered'', ''Date Delivered''),
     (''exception description'', ''Exception Description''),
     (''exception resolution'', ''Exception Resolution''),
     (''ship to location'', ''Ship To Location''),
     (''weight'', ''Weight'')]"

text \<open>\<^verbatim>\<open>mapping.get(str(c).lower().strip(), c)\<close>.\<close>

definition cols_new :: "string \<Rightarrow> string" where
  "cols_new c = (case map_of mapping (strip (lower c)) of Some n \<Rightarrow> n | None \<Rightarrow> c)"

text \<open>\<^verbatim>\<open>map_new_columns\<close>: rename, then add each canonical column that is absent.\<close>

definition map_new_columns :: "table \<Rightarrow> table" where
  "map_new_columns df =
     fold ensure_column (map snd mapping) (df\<lparr>columns := map cols_new (columns df)\<rparr>)"

section \<open>The normalized view\<close>

text \<open>
  The text of a cell as \<^verbatim>\<open>extract_all_rma_tokens_from_row\<close> and \<^verbatim>\<open>sources_for_token\<close>
  read it: \<^verbatim>\<open>None\<close> and NaN cells are skipped, and so are blank ones.
\<close>

definition cell_text :: "cell \<Rightarrow> string option" where
  "cell_text val =
     (if isna val then None
      else let s = strip (py_str val) in if s = [] then None else Some s)"

text \<open>The list \<^verbatim>\<open>pool\<close> of \<^verbatim>\<open>extract_all_rma_tokens_from_row\<close>, column by column.\<close>

definition token_pool :: "string list \<Rightarrow> cell list \<Rightarrow> string list" where
  "token_pool cols r =
     concat (map (\<lambda>col. case cell_text (row_get cols r col PyNone) of
                            None \<Rightarrow> []
                          | Some s \<Rightarrow> RMA_ANY8_IN_TEXT_RX_findall s) cols)"

definition extract_all_rma_tokens_from_row :: "string list \<Rightarrow> cell list \<Rightarrow> string list" where
  "extract_all_rma_tokens_from_row cols r =
     (let pool = token_pool cols r in
      if pool = [] then [] else rank_tokens (dedup_loop [] pool))"

text \<open>The inner function \<^verbatim>\<open>sources_for_token\<close> of \<^verbatim>\<open>build_new_norm\<close>.\<close>

definition sources_for_token :: "string list \<Rightarrow> cell list \<Rightarrow> string \<Rightarrow> string list" where
  "sources_for_token cols r tok =
     (let hits = concat (map (\<lambda>col. case cell_text (row_get cols r col PyNone) of
                                        None \<Rightarrow> []
                                      | Some s \<Rightarrow> (if tok \<in> set (RMA_ANY8_IN_TEXT_RX_findall s)
                                                   then [s] else [])) cols)
      in if hits = [] then [[]] else hits)"

text \<open>The fourteen columns of the normalized table.\<close>

definition NORM_COLS :: "string list" where
  "NORM_COLS =
    [''Manifest Date'', ''Original RMA'', ''RMA Number'', ''Tracking Number'', ''Status'',
     ''Shipper Name'', ''Ship To'', ''Scheduled Delivery'', ''Date Delivered'',
     ''Exception Description'', ''Exception Resolution'', ''Ship To Location'', ''Weight'',
     ''Package Reference No. 2'']"

text \<open>
  The dictionary appended to \<^verbatim>\<open>rows\<close>, as the row it becomes under \<open>NORM_COLS\<close>;
  \<open>original\<close>, \<open>rma\<close> and \<open>tn\<close> are what the two \<^verbatim>\<open>append\<close> calls differ in.
\<close>

definition norm_row :: "string list \<Rightarrow> cell list \<Rightarrow> string \<Rightarrow> string \<Rightarrow> string \<Rightarrow> cell list" where
  "norm_row cols r original rma tn =
    [Str (to_str (row_get cols r ''Manifest Date'' (Str [])) False),
     Str original,
     Str rma,
     Str (upper tn),
     Str (canonical_status (row_get cols r ''Status'' (Str []))),
     Str (to_str (row_get cols r ''Shipper Name'' (Str [])) False),
     Str (to_str (row_get cols r ''Ship To'' (Str [])) False),
     Str (to_str (row_get cols r ''Scheduled Delivery'' (Str [])) False),
     Str (to_str (row_get cols r ''Date Delivered'' (Str [])) False),
     Str (to_str (row_get cols r ''Exception Description'' (Str [])) False),
     Str (to_str (row_get cols r ''Exception Resolution'' (Str [])) False),
     Str (to_str (row_get cols r ''Ship To Location'' (Str [])) False),
     Str (to_str (row_get cols r ''Weight'' (Str [])) False),
     Str (to_str (row_get cols r ''Package Reference No. 2'' (Str [])) False)]"

text \<open>
  The tracking number of a record: the \<^verbatim>\<open>Tracking Number\<close> cell if its text is not
  blank, else the first tracking number of the details cell, else nothing, and the
  record is skipped (\<^verbatim>\<open>continue\<close>).
\<close>

definition record_tn :: "string list \<Rightarrow> cell list \<Rightarrow> string option" where
  "record_tn cols r =
     (let tn = strip (py_str (or_empty (row_get cols r ''Tracking Number'' (Str [])))) in
      if tn \<noteq> [] then Some tn
      else (case extract_tn_list (row_get cols r ''Tracking Number - Details'' (Str [])) of
              t # _ \<Rightarrow> Some t
            | [] \<Rightarrow> None))"

text \<open>The body of the loop over the records: the rows one record appends.\<close>

definition record_rows :: "string list \<Rightarrow> cell list \<Rightarrow> cell list list" where
  "record_rows cols r =
     (case record_tn cols r of
        None \<Rightarrow> []
      | Some tn \<Rightarrow>
          (let all_tokens = extract_all_rma_tokens_from_row cols r in
           if all_tokens = []
           then [norm_row cols r (strip (py_str (or_empty (row_get cols r ''RMA Number'' (Str [])))))
                   [] tn]
           else map (\<lambda>tok. norm_row cols r
                              (case sources_for_token cols r tok of s # _ \<Rightarrow> s | [] \<Rightarrow> [])
                              tok tn) all_tokens))"

definition build_new_norm :: "table \<Rightarrow> table" where
  "build_new_norm new_df =
     (let df = map_new_columns new_df;
          out = \<lparr>columns = NORM_COLS, rows = concat (map (record_rows (columns df)) (rows df))\<rparr>
      in normalize_rma_column_inplace out)"

section \<open>The fallback patch\<close>

text \<open>\<^verbatim>\<open>_pick_best_rma\<close>.\<close>

definition pick_best_rma :: "string list \<Rightarrow> string" where
  "pick_best_rma candidates =
     (if candidates = [] then []
      else let only8 = filter (\<lambda>c. RMA_STRICT_RX_fullmatch (strip c)) candidates in
        (case only8 of
           [] \<Rightarrow> []
         | first # _ \<Rightarrow> (case find RMA_PREF6_RX_fullmatch only8 of Some c \<Rightarrow> c | None \<Rightarrow> first)))"

text \<open>One round of the loop that fills the dictionary \<^verbatim>\<open>tn_to_pr2\<close>, and the loop.\<close>

definition tn_to_pr2_step :: "string list \<Rightarrow> cell list \<Rightarrow> (string \<rightharpoonup> string) \<Rightarrow> (string \<rightharpoonup> string)" where
  "tn_to_pr2_step cols r m =
     (let tn = upper (strip (py_str (or_empty (row_get cols r ''Tracking Number'' (Str [])))));
          pr2 = strip (py_str (or_empty (row_get cols r ''Package Reference No. 2'' (Str []))))
      in if tn = [] then m
         else m(tn \<mapsto> pick_best_rma (RMA_ANY8_IN_TEXT_RX_findall pr2)))"

definition tn_to_pr2 :: "table \<Rightarrow> (string \<rightharpoonup> string)" where
  "tn_to_pr2 new_norm_df = fold (tn_to_pr2_step (columns new_norm_df)) (rows new_norm_df) Map.empty"

text \<open>The inner function \<^verbatim>\<open>fallback_rma\<close>, with the dictionary it closes over.\<close>

definition fallback_rma :: "(string \<rightharpoonup> string) \<Rightarrow> cell \<Rightarrow> cell \<Rightarrow> string" where
  "fallback_rma m val tn_details =
     (let s = strip (py_str (or_empty val)) in
      if s \<noteq> [] \<and> upper s \<noteq> ''N/A'' \<and> RMA_STRICT_RX_fullmatch s then s
      else if truthy tn_details
      then (case extract_tn_list tn_details of
              [] \<Rightarrow> ''N/A''
            | t # _ \<Rightarrow>
                (let pr2_best = (case m t of Some b \<Rightarrow> b | None \<Rightarrow> []) in
                 if RMA_STRICT_RX_fullmatch pr2_best then pr2_best else ''N/A''))
      else ''N/A'')"

text \<open>The value the \<^verbatim>\<open>lambda\<close> of \<^verbatim>\<open>out.apply(..., axis=1)\<close> gives for one row.\<close>

definition patched_rma :: "(string \<rightharpoonup> string) \<Rightarrow> string list \<Rightarrow> cell list \<Rightarrow> cell" where
  "patched_rma m cols r =
     Str (fallback_rma m (row_get cols r ''RMA Number'' (Str []))
                         (row_get cols r ''Tracking Number - Details'' (Str [])))"

definition patch_rma_na_with_pr2 :: "table \<Rightarrow> table \<Rightarrow> table" where
  "patch_rma_na_with_pr2 reconciled_df new_norm_df =
     (if df_empty reconciled_df \<or> df_empty new_norm_df then reconciled_df
      else assign_column ''RMA Number''
             (patched_rma (tn_to_pr2 new_norm_df) (columns reconciled_df)) reconciled_df)"

subsection \<open>The same function on a store of table objects\<close>

text \<open>
  Python passes tables by reference. A store is the list of the table objects that
  exist, a reference is a position in it. \<^verbatim>\<open>df.copy()\<close> makes a new object,
  \<^verbatim>\<open>df[c] = ...\<close> changes the object it is applied to.
\<close>

type_synonym store = "table list"

definition df_copy :: "store \<Rightarrow> nat \<Rightarrow> nat \<times> store" where
  "df_copy h a = (length h, h @ [h ! a])"

definition df_setitem :: "store \<Rightarrow> nat \<Rightarrow> string \<Rightarrow> (cell list \<Rightarrow> cell) \<Rightarrow> store" where
  "df_setitem h a c f = h[a := assign_column c f (h ! a)]"

definition patch_rma_na_with_pr2_store :: "store \<Rightarrow> nat \<Rightarrow> nat \<Rightarrow> nat \<times> store" where
  "patch_rma_na_with_pr2_store h reconciled_df new_norm_df =
     (if df_empty (h ! reconciled_df) \<or> df_empty (h ! new_norm_df) then (reconciled_df, h)
      else (let m = tn_to_pr2 (h ! new_norm_df);
                (out, h1) = df_copy h reconciled_df;
                h2 = df_setitem h1 out ''RMA Number'' (patched_rma m (columns (h1 ! out)))
            in (out, h2)))"

section \<open>The final table\<close>

text \<open>\<^verbatim>\<open>FINAL_COLS\<close> of \<^verbatim>\<open>config.py\<close>.\<close>

definition FINAL_COLS :: "string list" where
  "FINAL_COLS =
    [''Manifest Date'', ''RMA Number'', ''Tracking Number - Details'', ''Status'',
     ''Shipper Name'', ''Ship To'', ''Scheduled Delivery'', ''Date Delivered'',
     ''Exception Description'', ''Exception Resolution'', ''Weight'']"

text \<open>
  Whether a row of the normalized table puts its identifier on the block list, and the
  block list \<^verbatim>\<open>blocked\<close> itself, in the order of the rows.
\<close>

definition blocks :: "string list \<Rightarrow> cell list \<Rightarrow> string option" where
  "blocks cols r =
     (let original = strip (py_str (or_empty (row_get cols r ''Original RMA'' (Str []))));
          cleaned = strip (py_str (or_empty (row_get cols r ''RMA Number'' (Str []))))
      in if original \<noteq> [] \<and> contains (upper original) ''CONS PICK UP''
            \<and> RMA_STRICT_RX_fullmatch cleaned
         then Some cleaned else None)"

definition blocked :: "table \<Rightarrow> string list" where
  "blocked new_norm_df = List.map_filter (blocks (columns new_norm_df)) (rows new_norm_df)"

text \<open>
  \<^verbatim>\<open>df_out["RMA Number"].astype(str).str.fullmatch(r"\d{8}", na=False)\<close> and
  \<^verbatim>\<open>~df_out["RMA Number"].isin(sorted(blocked))\<close>, for one row.
\<close>

definition rma_is_8_digits :: "string list \<Rightarrow> cell list \<Rightarrow> bool" where
  "rma_is_8_digits cols r = RMA_STRICT_RX_fullmatch (py_str (row_get cols r ''RMA Number'' PyNone))"

definition rma_not_blocked :: "string list \<Rightarrow> string list \<Rightarrow> cell list \<Rightarrow> bool" where
  "rma_not_blocked bl cols r =
     (case row_get cols r ''RMA Number'' PyNone of Str s \<Rightarrow> s \<notin> set bl | _ \<Rightarrow> True)"

text \<open>
  \<^verbatim>\<open>build_final_output_df\<close>. Reading the column \<^verbatim>\<open>RMA Number\<close> of a table that has
  none raises \<^verbatim>\<open>KeyError\<close>.
\<close>

definition build_final_output_df :: "table \<Rightarrow> table \<Rightarrow> py_error + table" where
  "build_final_output_df reconciled_df new_norm_df =
     (let df_out = patch_rma_na_with_pr2 reconciled_df new_norm_df;
          bl = blocked new_norm_df;
          df_out = fold drop_if_present
                     [''Tracking Number'', ''Ship To Location'', ''Original RMA''] df_out;
          df_out = normalize_rma_column_inplace df_out
      in if ''RMA Number'' \<notin> set (columns df_out) then Inl (KeyError ''RMA Number'')
         else (let df_out = filter_rows (rma_is_8_digits (columns df_out)) df_out;
                   df_out = (if bl \<noteq> [] then filter_rows (rma_not_blocked bl (columns df_out)) df_out
                             else df_out);
                   df_out = fold ensure_column FINAL_COLS df_out
               in select_columns FINAL_COLS df_out))"

section \<open>Properties of the token scan\<close>

lemma wf_table_aligned: "wf_table df \<Longrightarrow> aligned df"
  by (simp add: wf_table_def)

lemma last_take8: "8 \<le> length xs \<Longrightarrow> last (take 8 xs) = xs ! 7"
  by (cases "take 8 xs = []") (auto simp: last_conv_nth min_def)

text \<open>
  Every match the scan reports from offset \<open>i\<close> on is an isolated run of eight digits of
  the whole text \<open>full\<close>; \<open>s\<close> is what is left of \<open>full\<close> at \<open>i\<close>.
\<close>

lemma any8_scan_sound:
  "i \<le> length full \<Longrightarrow> s = drop i full \<Longrightarrow> prev = (if i = 0 then None else Some (full ! (i - 1)))
   \<Longrightarrow> (j, t) \<in> set (any8_scan i prev s)
   \<Longrightarrow> j + 8 \<le> length full \<and> t = take 8 (drop j full) \<and> list_all isdigit t
       \<and> (j = 0 \<or> \<not> isdigit (full ! (j - 1)))
       \<and> (j + 8 = length full \<or> \<not> isdigit (full ! (j + 8)))"
proof (induction i prev s rule: any8_scan.induct)
  case (1 i prev)
  then show ?case by simp
next
  case (2 i prev c cs)
  have ccs: "c # cs = drop i full" using 2 by simp
  have ilt: "i < length full" using ccs "2.prems"(1)
    by (metis drop_eq_Nil list.distinct(1) not_le)
  have c: "c = full ! i" using ccs ilt by (metis Cons_nth_drop_Suc list.inject)
  have cs: "cs = drop (Suc i) full" using ccs ilt by (metis Cons_nth_drop_Suc list.inject)
  show ?case
  proof (cases "any8_match_at prev (c # cs)")
    case True
    note m = True
    have len8: "8 \<le> length (c # cs)" using m by (simp add: any8_match_at_def)
    have i8: "i + 8 \<le> length full" using len8 ccs by simp
    show ?thesis
    proof (cases "(j, t) = (i, take 8 (c # cs))")
      case True
      have a: "list_all isdigit (take 8 (drop i full))" using m ccs by (simp add: any8_match_at_def)
      have b: "i = 0 \<or> \<not> isdigit (full ! (i - 1))" using m "2.prems"(3) by (auto simp: any8_match_at_def)
      have d: "i + 8 = length full \<or> \<not> isdigit (full ! (i + 8))"
      proof (cases "drop 8 (c # cs)")
        case Nil
        then show ?thesis using ccs i8 by (metis add.commute drop_drop drop_eq_Nil le_antisym)
      next
        case (Cons n ns)
        then have "\<not> isdigit n" using m by (simp add: any8_match_at_def)
        moreover have "drop (i + 8) full = n # ns" using Cons ccs by (metis add.commute drop_drop)
        then have "n = full ! (i + 8)"
          by (metis Cons_nth_drop_Suc drop_eq_Nil list.distinct(1) list.inject not_le)
        ultimately show ?thesis by simp
      qed
      show ?thesis using True a b d i8 ccs by simp
    next
      case False
      have "(j, t) \<in> set ((i, take 8 (c # cs))
                # any8_scan (i + 8) (Some (last (take 8 (c # cs)))) (drop 7 cs))"
        using "2.prems"(4) m by (simp only: any8_scan.simps if_True)
      with False have mem: "(j, t) \<in> set (any8_scan (i + 8) (Some (last (take 8 (c # cs)))) (drop 7 cs))"
        by (simp only: set_simps insert_iff) blast
      have s': "drop 7 cs = drop (i + 8) full" by (simp add: cs add.commute)
      have "last (take 8 (c # cs)) = (c # cs) ! 7" using len8
        by (rule last_take8)
      also have "\<dots> = full ! (i + 7)" using ccs i8 by simp
      finally have l: "last (take 8 (c # cs)) = full ! (i + 7)" .
      have e: "i + 8 - 1 = i + 7" "i + 8 \<noteq> 0" by arith+
      have p': "Some (last (take 8 (c # cs))) = (if i + 8 = 0 then None else Some (full ! (i + 8 - 1)))"
        unfolding l e by (simp only: e if_False)
      show ?thesis using "2.IH"(1)[OF m i8 s' p' mem] .
    qed
  next
    case False
    then have mem: "(j, t) \<in> set (any8_scan (i + 1) (Some c) cs)" using "2.prems"(4) by simp
    have "i + 1 \<le> length full" using ilt by simp
    moreover have "cs = drop (i + 1) full" using cs by simp
    moreover have "Some c = (if i + 1 = 0 then None else Some (full ! (i + 1 - 1)))" using c by simp
    ultimately show ?thesis using "2.IH"(2)[OF False _ _ _ mem] by blast
  qed
qed

lemma finditer_occurrence:
  assumes "(j, t) \<in> set (RMA_ANY8_IN_TEXT_RX_finditer s)"
  shows "j + 8 \<le> length s \<and> t = take 8 (drop j s) \<and> list_all isdigit t
       \<and> (j = 0 \<or> \<not> isdigit (s ! (j - 1)))
       \<and> (j + 8 = length s \<or> \<not> isdigit (s ! (j + 8)))"
proof -
  have a: "s = drop 0 s" by simp
  have b: "None = (if (0::nat) = 0 then None else Some (s ! (0 - 1)))" by simp
  have m: "(j, t) \<in> set (any8_scan 0 None s)"
    using assms by (simp only: RMA_ANY8_IN_TEXT_RX_finditer_def)
  from any8_scan_sound[OF le0 a b m] show ?thesis by blast
qed

lemma finditer_length:
  assumes "(j, t) \<in> set (RMA_ANY8_IN_TEXT_RX_finditer s)"
  shows "length t = 8"
proof -
  from finditer_occurrence[OF assms] have "j + 8 \<le> length s" and "t = take 8 (drop j s)" by blast+
  then have "length t = min (length s - j) 8" and "8 \<le> length s - j" by simp_all
  then show ?thesis by (simp only: min_absorb2)
qed

lemma findall_token: "t \<in> set (RMA_ANY8_IN_TEXT_RX_findall s) \<Longrightarrow> RMA_STRICT_RX_fullmatch t"
proof -
  assume "t \<in> set (RMA_ANY8_IN_TEXT_RX_findall s)"
  then obtain j where m: "(j, t) \<in> set (RMA_ANY8_IN_TEXT_RX_finditer s)"
    by (auto simp: RMA_ANY8_IN_TEXT_RX_findall_def)
  from finditer_occurrence[OF m] finditer_length[OF m] show ?thesis
    unfolding RMA_STRICT_RX_fullmatch_def by blast
qed

text \<open>
  Claim C4. The scan with \<^verbatim>\<open>RMA_ANY8_IN_TEXT_RX\<close> is a function of the text alone, so two
  calls on one text give one sequence. Every token it returns has exactly eight
  characters, all of them decimal digits, and stands in the text at an offset \<open>j\<close> where
  it is not next to another digit: the character before it, if there is one, is no
  digit, and neither is the character after it. So the match is a whole maximal run
  of digits, never a piece of a longer one.
\<close>

theorem any8_tokens_isolated_digit_runs:
  "(\<forall>(j, t) \<in> set (RMA_ANY8_IN_TEXT_RX_finditer s).
      length t = 8 \<and> list_all isdigit t \<and> j + 8 \<le> length s \<and> t = take 8 (drop j s)
      \<and> (j = 0 \<or> \<not> isdigit (s ! (j - 1)))
      \<and> (j + 8 = length s \<or> \<not> isdigit (s ! (j + 8))))
   \<and> (\<forall>t \<in> set (RMA_ANY8_IN_TEXT_RX_findall s).
      length t = 8 \<and> list_all isdigit t
      \<and> (\<exists>j. j + 8 \<le> length s \<and> t = take 8 (drop j s)
            \<and> (j = 0 \<or> \<not> isdigit (s ! (j - 1)))
            \<and> (j + 8 = length s \<or> \<not> isdigit (s ! (j + 8)))))"
proof -
  have A: "\<forall>(j, t) \<in> set (RMA_ANY8_IN_TEXT_RX_finditer s).
      length t = 8 \<and> list_all isdigit t \<and> j + 8 \<le> length s \<and> t = take 8 (drop j s)
      \<and> (j = 0 \<or> \<not> isdigit (s ! (j - 1)))
      \<and> (j + 8 = length s \<or> \<not> isdigit (s ! (j + 8)))"
  proof (rule ballI)
    fix p assume pm: "p \<in> set (RMA_ANY8_IN_TEXT_RX_finditer s)"
    obtain j t where p: "p = (j, t)" by (cases p)
    show "case p of (j, t) \<Rightarrow> length t = 8 \<and> list_all isdigit t \<and> j + 8 \<le> length s
      \<and> t = take 8 (drop j s)
      \<and> (j = 0 \<or> \<not> isdigit (s ! (j - 1)))
      \<and> (j + 8 = length s \<or> \<not> isdigit (s ! (j + 8)))"
    proof -
      have "(j, t) \<in> set (RMA_ANY8_IN_TEXT_RX_finditer s)" using pm p by simp
      from finditer_occurrence[OF this] finditer_length[OF this]
      show ?thesis unfolding p prod.case by blast
    qed
  qed
  have B: "\<forall>t \<in> set (RMA_ANY8_IN_TEXT_RX_findall s).
      length t = 8 \<and> list_all isdigit t
      \<and> (\<exists>j. j + 8 \<le> length s \<and> t = take 8 (drop j s)
            \<and> (j = 0 \<or> \<not> isdigit (s ! (j - 1)))
            \<and> (j + 8 = length s \<or> \<not> isdigit (s ! (j + 8))))"
  proof (rule ballI)
    fix t assume "t \<in> set (RMA_ANY8_IN_TEXT_RX_findall s)"
    then obtain j where m: "(j, t) \<in> set (RMA_ANY8_IN_TEXT_RX_finditer s)"
      by (auto simp: RMA_ANY8_IN_TEXT_RX_findall_def)
    show "length t = 8 \<and> list_all isdigit t
      \<and> (\<exists>j. j + 8 \<le> length s \<and> t = take 8 (drop j s)
            \<and> (j = 0 \<or> \<not> isdigit (s ! (j - 1)))
            \<and> (j + 8 = length s \<or> \<not> isdigit (s ! (j + 8))))"
      using finditer_occurrence[OF m] finditer_length[OF m] by blast
  qed
  from A B show ?thesis by (rule conjI)
qed

theorem any8_tokens_isolated_digit_runs_witness:
  "RMA_ANY8_IN_TEXT_RX_finditer ''RMA 67024814 x123456789'' = [(4, ''67024814'')]
   \<and> (length ''67024814'' = 8 \<and> list_all isdigit ''67024814''
       \<and> 4 + 8 \<le> length ''RMA 67024814 x123456789''
       \<and> ''67024814'' = take 8 (drop 4 ''RMA 67024814 x123456789'')
       \<and> ((4::nat) = 0 \<or> \<not> isdigit (''RMA 67024814 x123456789'' ! (4 - 1)))
       \<and> (4 + 8 = length ''RMA 67024814 x123456789''
            \<or> \<not> isdigit (''RMA 67024814 x123456789'' ! (4 + 8))))
   \<and> RMA_ANY8_IN_TEXT_RX_findall ''RMA 67024814 x123456789'' = [''67024814'']
   \<and> length ''67024814'' = 8 \<and> list_all isdigit ''67024814''
   \<and> (\<exists>j. j + 8 \<le> length ''RMA 67024814 x123456789''
         \<and> ''67024814'' = take 8 (drop j ''RMA 67024814 x123456789'')
         \<and> (j = 0 \<or> \<not> isdigit (''RMA 67024814 x123456789'' ! (j - 1)))
         \<and> (j + 8 = length ''RMA 67024814 x123456789''
              \<or> \<not> isdigit (''RMA 67024814 x123456789'' ! (j + 8))))"
proof -
  have i: "RMA_ANY8_IN_TEXT_RX_finditer ''RMA 67024814 x123456789'' = [(4, ''67024814'')]"
    by code_simp
  then have im: "(4, ''67024814'') \<in> set (RMA_ANY8_IN_TEXT_RX_finditer ''RMA 67024814 x123456789'')"
    by simp
  have e: "RMA_ANY8_IN_TEXT_RX_findall ''RMA 67024814 x123456789'' = [''67024814'']"
    by code_simp
  then have m: "''67024814'' \<in> set (RMA_ANY8_IN_TEXT_RX_findall ''RMA 67024814 x123456789'')"
    by simp
  note t = any8_tokens_isolated_digit_runs[of "''RMA 67024814 x123456789''"]
  from t[THEN conjunct1, THEN bspec, OF im, unfolded prod.case] t[THEN conjunct2, THEN bspec, OF m] i e
  show ?thesis by (simp only: simp_thms)
qed

section \<open>Properties of the ranking\<close>

lemma rank_filters:
  "filter (\<lambda>x. startswith x ''6'') ts = filter (\<lambda>x. prefix_class x = 0) ts"
  "filter (\<lambda>x. startswith x ''7'') ts = filter (\<lambda>x. prefix_class x = 1) ts"
  "filter (\<lambda>x. \<not> (startswith x ''6'' \<or> startswith x ''7'')) ts = filter (\<lambda>x. prefix_class x = 2) ts"
  by (rule filter_cong; auto simp: prefix_class_def startswith_def)+

lemma sorted_same_class: "sorted (map prefix_class (filter (\<lambda>x. prefix_class x = k) ts))"
  by (induction ts) auto

lemma rank_tokens_classes:
  "rank_tokens ts = filter (\<lambda>x. prefix_class x = 0) ts @ filter (\<lambda>x. prefix_class x = 1) ts
       @ filter (\<lambda>x. prefix_class x = 2) ts"
  by (simp only: rank_tokens_def Let_def rank_filters)

lemma prefix_class_cases: "prefix_class x = 0 \<or> prefix_class x = 1 \<or> prefix_class x = 2"
  by (simp add: prefix_class_def)

lemma mset_rank_tokens: "mset (rank_tokens ts) = mset ts"
  unfolding rank_tokens_classes using prefix_class_cases
  by (induction ts) auto

lemma length_rank_tokens: "length (rank_tokens ts) = length ts"
  using mset_rank_tokens[of ts] by (metis size_mset)

lemma set_rank_tokens: "set (rank_tokens ts) = set ts"
  using mset_rank_tokens[of ts] by (metis set_mset_mset)

lemma sorted_rank_tokens: "sorted (map prefix_class (rank_tokens ts))"
  unfolding rank_tokens_classes
  by (auto simp: sorted_append sorted_same_class simp del: One_nat_def)

lemma filter_rank_tokens:
  "filter (\<lambda>x. prefix_class x = k) (rank_tokens ts) = filter (\<lambda>x. prefix_class x = k) ts"
proof -
  consider "k = 0" | "k = 1" | "k = 2" | "k > 2" by arith
  then show ?thesis
  proof cases
    case 4
    have "prefix_class x \<noteq> k" for x using prefix_class_cases[of x] 4 by auto
    then show ?thesis by simp
  qed (auto simp: rank_tokens_classes filter_empty_conv)
qed

lemma filter_rank_tokens_sym:
  "filter (\<lambda>x. k = prefix_class x) ts = filter (\<lambda>x. k = prefix_class x) (rank_tokens ts)"
  using filter_rank_tokens[of k ts] by (simp add: eq_commute[of k])

text \<open>
  Claim C5. The ranking is a stable partition by the first character: its result is the
  tokens that start with 6, in their order, then those that start with 7, in their
  order, then the others, in their order. It has the length of its input and the same
  tokens with the same multiplicities. Said with the library's stable sort: it is the
  input sorted by priority class.
\<close>

theorem rank_tokens_stable_partition:
  "rank_tokens ts = filter (\<lambda>x. startswith x ''6'') ts @ filter (\<lambda>x. startswith x ''7'') ts
       @ filter (\<lambda>x. \<not> startswith x ''6'' \<and> \<not> startswith x ''7'') ts
   \<and> length (rank_tokens ts) = length ts
   \<and> mset (rank_tokens ts) = mset ts
   \<and> rank_tokens ts = sort_key prefix_class ts"
proof -
  have "sort_key prefix_class ts = rank_tokens ts"
  proof (rule properties_for_sort_key)
    show "mset (rank_tokens ts) = mset ts" by (rule mset_rank_tokens)
    show "sorted (map prefix_class (rank_tokens ts))" by (rule sorted_rank_tokens)
    show "filter (\<lambda>x. prefix_class k = prefix_class x) (rank_tokens ts)
        = filter (\<lambda>x. prefix_class k = prefix_class x) ts" for k
      by (rule filter_rank_tokens_sym[symmetric])
  qed
  then show ?thesis
    by (simp add: length_rank_tokens mset_rank_tokens) (simp add: rank_tokens_def)
qed

section \<open>The row count of the normalized view\<close>

lemma set_dedup_loop: "set (dedup_loop acc ts) = set acc \<union> set ts"
  by (induction ts arbitrary: acc) auto

lemma distinct_dedup_loop: "distinct acc \<Longrightarrow> distinct (dedup_loop acc ts)"
  by (induction ts arbitrary: acc) auto

text \<open>The list that \<^verbatim>\<open>_clean_rma_string\<close> indexes with \<^verbatim>\<open>[0]\<close> is not empty.\<close>

lemma clean_rma_string_index_defined:
  "tokens \<noteq> [] \<Longrightarrow> rank_tokens (dedup_loop [] tokens) \<noteq> []"
proof -
  assume "tokens \<noteq> []"
  then have "set (rank_tokens (dedup_loop [] tokens)) \<noteq> {}"
    by (simp add: set_rank_tokens set_dedup_loop)
  then show ?thesis by auto
qed

lemma length_extract_all:
  "length (extract_all_rma_tokens_from_row cols r) = card (set (token_pool cols r))"
proof (cases "token_pool cols r = []")
  case True
  then show ?thesis by (simp add: extract_all_rma_tokens_from_row_def)
next
  case False
  have "length (dedup_loop [] (token_pool cols r)) = card (set (token_pool cols r))"
    using distinct_card[OF distinct_dedup_loop[of "[]" "token_pool cols r"]]
    by (simp add: set_dedup_loop)
  with False show ?thesis
    by (simp add: extract_all_rma_tokens_from_row_def length_rank_tokens)
qed

lemma length_record_rows:
  "length (record_rows cols r) =
     (case record_tn cols r of None \<Rightarrow> 0 | Some tn \<Rightarrow> max 1 (card (set (token_pool cols r))))"
proof (cases "record_tn cols r")
  case None
  then show ?thesis by (simp add: record_rows_def)
next
  case (Some tn)
  show ?thesis
  proof (cases "extract_all_rma_tokens_from_row cols r = []")
    case True
    then have "card (set (token_pool cols r)) = 0" using length_extract_all[of cols r] by simp
    with True Some show ?thesis by (simp add: record_rows_def)
  next
    case False
    then have "0 < card (set (token_pool cols r))" using length_extract_all[of cols r]
      by (metis length_greater_0_conv)
    with False Some show ?thesis
      by (simp add: record_rows_def Let_def length_extract_all max_def)
  qed
qed

lemma record_tn_None_iff:
  "record_tn cols r = None \<longleftrightarrow>
     strip (py_str (or_empty (row_get cols r ''Tracking Number'' (Str [])))) = []
     \<and> extract_tn_list (row_get cols r ''Tracking Number - Details'' (Str [])) = []"
  by (simp add: record_tn_def Let_def split: list.splits)

lemma length_rows_assign_column: "length (rows (assign_column c f df)) = length (rows df)"
  by (simp add: assign_column_def)

lemma length_rows_normalize: "length (rows (normalize_rma_column_inplace df)) = length (rows df)"
  by (simp add: normalize_rma_column_inplace_def length_rows_assign_column)

lemma length_rows_build_new_norm:
  "length (rows (build_new_norm df)) =
     sum_list (map (\<lambda>r. length (record_rows (columns (map_new_columns df)) r)) (rows (map_new_columns df)))"
  by (simp add: build_new_norm_def Let_def length_rows_normalize length_concat comp_def)

text \<open>
  Claim C1. Let \<open>r\<close> be a record of the harmonized table, whose labels are pairwise
  distinct. If its tracking number can be resolved (the text of its
  \<^verbatim>\<open>Tracking Number\<close> cell is not blank, or else the details cell holds a match of the
  tracking-number pattern), it appends as many rows as the larger of 1 and the number of
  distinct 8-digit tokens in the record. If not, it appends no row, and nothing fails.
  The normalized table holds the rows of all records, so its row count is the sum over
  the records.
\<close>

theorem build_new_norm_row_count:
  assumes "wf_table (map_new_columns df)" "r \<in> set (rows (map_new_columns df))"
    and "cols = columns (map_new_columns df)"
  shows
  "(strip (py_str (or_empty (row_get cols r ''Tracking Number'' (Str [])))) \<noteq> []
      \<or> extract_tn_list (row_get cols r ''Tracking Number - Details'' (Str [])) \<noteq> []
    \<longrightarrow> length (record_rows cols r) = max 1 (card (set (token_pool cols r))))
   \<and> (strip (py_str (or_empty (row_get cols r ''Tracking Number'' (Str [])))) = []
      \<and> extract_tn_list (row_get cols r ''Tracking Number - Details'' (Str [])) = []
    \<longrightarrow> record_rows cols r = [])
   \<and> length (rows (build_new_norm df)) =
       sum_list (map (\<lambda>r. length (record_rows cols r)) (rows (map_new_columns df)))"
proof -
  have "record_tn cols r \<noteq> None \<Longrightarrow> length (record_rows cols r) = max 1 (card (set (token_pool cols r)))"
    using length_record_rows[of cols r] by (cases "record_tn cols r") simp_all
  moreover have "record_tn cols r = None \<Longrightarrow> record_rows cols r = []"
    by (simp add: record_rows_def)
  ultimately show ?thesis
    unfolding record_tn_None_iff assms(3) using length_rows_build_new_norm[of df]
    by (intro conjI impI) (simp_all only: de_Morgan_conj)
qed

theorem build_new_norm_row_count_witness:
  "wf_table (map_new_columns
       \<lparr>columns = [''tracking number'', ''Note''],
          rows = [[NaN, Str ''a 91234567 61234567 91234567''], [PyNone, Str ''61234567'']]\<rparr>)
   \<and> length (record_rows
         (columns (map_new_columns
           \<lparr>columns = [''tracking number'', ''Note''],
              rows = [[NaN, Str ''a 91234567 61234567 91234567''], [PyNone, Str ''61234567'']]\<rparr>))
         (rows (map_new_columns
           \<lparr>columns = [''tracking number'', ''Note''],
              rows = [[NaN, Str ''a 91234567 61234567 91234567''], [PyNone, Str ''61234567'']]\<rparr>) ! 0)) = 2
   \<and> record_rows
         (columns (map_new_columns
           \<lparr>columns = [''tracking number'', ''Note''],
              rows = [[NaN, Str ''a 91234567 61234567 91234567''], [PyNone, Str ''61234567'']]\<rparr>))
         (rows (map_new_columns
           \<lparr>columns = [''tracking number'', ''Note''],
              rows = [[NaN, Str ''a 91234567 61234567 91234567''], [PyNone, Str ''61234567'']]\<rparr>) ! 1) = []
   \<and> length (rows (build_new_norm
         \<lparr>columns = [''tracking number'', ''Note''],
            rows = [[NaN, Str ''a 91234567 61234567 91234567''], [PyNone, Str ''61234567'']]\<rparr>)) = 2"
proof -
  let ?df = "\<lparr>columns = [''tracking number'', ''Note''],
            rows = [[NaN, Str ''a 91234567 61234567 91234567''], [PyNone, Str ''61234567'']]\<rparr>"
  let ?c = "columns (map_new_columns ?df)"
  let ?r = "rows (map_new_columns ?df) ! 0"
  let ?q = "rows (map_new_columns ?df) ! 1"
  have w: "wf_table (map_new_columns ?df)" by code_simp
  have len: "length (rows (map_new_columns ?df)) = 2" by code_simp
  have r: "?r \<in> set (rows (map_new_columns ?df))" and q: "?q \<in> set (rows (map_new_columns ?df))"
    using len by (simp_all only: nth_mem)
  have a: "strip (py_str (or_empty (row_get ?c ?r ''Tracking Number'' (Str [])))) \<noteq> []"
    by code_simp
  have b: "max 1 (card (set (token_pool ?c ?r))) = 2" by code_simp
  have c: "strip (py_str (or_empty (row_get ?c ?q ''Tracking Number'' (Str [])))) = []"
    by code_simp
  have d: "extract_tn_list (row_get ?c ?q ''Tracking Number - Details'' (Str [])) = []"
    by code_simp
  have s: "sum_list (map (\<lambda>r. length (record_rows ?c r)) (rows (map_new_columns ?df))) = 2"
    by code_simp
  note t = build_new_norm_row_count[OF w _ refl]
  have "length (record_rows ?c ?r) = max 1 (card (set (token_pool ?c ?r)))"
    by (rule t[OF r, THEN conjunct1, THEN mp, OF disjI1[OF a]])
  then have e: "length (record_rows ?c ?r) = 2" by (simp only: b)
  have f: "record_rows ?c ?q = []"
    by (rule t[OF q, THEN conjunct2, THEN conjunct1, THEN mp, OF conjI[OF c d]])
  have g: "length (rows (build_new_norm ?df)) = 2"
    using t[OF r, THEN conjunct2, THEN conjunct2] s by (rule trans)
  from w e f g show ?thesis by (intro conjI)
qed

section \<open>The tracking number of a record\<close>

lemma strip_eq_Nil_iff: "strip s = [] \<longleftrightarrow> list_all isspace s"
proof
  assume "strip s = []"
  then have "dropWhile isspace (rev (dropWhile isspace s)) = []" by (simp add: strip_def)
  then have a: "\<forall>x \<in> set (dropWhile isspace s). isspace x" by (simp add: dropWhile_eq_Nil_conv)
  have "dropWhile isspace s = []"
  proof (cases "dropWhile isspace s")
    case (Cons x xs)
    then have "\<not> isspace x" by (metis hd_dropWhile list.distinct(1) list.sel(1))
    with a Cons show ?thesis by simp
  qed simp
  then show "list_all isspace s" by (simp add: dropWhile_eq_Nil_conv list_all_iff)
next
  assume "list_all isspace s"
  then have e: "dropWhile isspace s = []" by (simp add: dropWhile_eq_Nil_conv list_all_iff)
  show "strip s = []" by (simp only: strip_def e rev.simps dropWhile.simps)
qed

text \<open>The text of an integer is not blank: it ends in a digit.\<close>

lemma digit_char_isdigit: "n < 10 \<Longrightarrow> isdigit (''0123456789'' ! n)"
  unfolding isdigit_def by (rule nth_mem) simp

lemma nat_digits_digits: "nat_digits n \<noteq> [] \<and> list_all isdigit (nat_digits n)"
proof (induction n rule: nat_digits.induct)
  case (1 n)
  show ?case
  proof (cases "n < 10")
    case True
    then show ?thesis by (simp add: nat_digits.simps[of n] digit_char_isdigit)
  next
    case False
    have "n mod 10 < 10" by simp
    then have "isdigit (''0123456789'' ! (n mod 10))" by (rule digit_char_isdigit)
    with False "1.IH" show ?thesis by (simp add: nat_digits.simps[of n])
  qed
qed

lemma isdigit_not_isspace: "isdigit c \<Longrightarrow> \<not> isspace c"
  by (auto simp: isdigit_def isspace_def)

lemma int_str_not_blank: "strip (int_str i) \<noteq> []"
proof -
  have n: "\<not> list_all isspace (nat_digits n)" for n
  proof -
    from nat_digits_digits[of n] obtain x xs where "nat_digits n = x # xs" "isdigit x"
      by (cases "nat_digits n") auto
    then show ?thesis by (simp add: isdigit_not_isspace)
  qed
  have "\<not> list_all isspace (int_str i)"
    using n[of "nat (- i)"] n[of "nat i"] by (simp add: int_str_def)
  then show ?thesis by (simp add: strip_eq_Nil_iff)
qed

lemma strip_nan: "strip (py_str NaN) = ''nan''"
  by code_simp

lemma strip_True: "strip ''True'' = ''True''"
  by code_simp

lemma strip_Nil: "strip [] = []"
  by (simp add: strip_def)

text \<open>
  The false cells, and the cells for which \<^verbatim>\<open>str(value or "").strip()\<close> is empty: the
  false ones and the texts of white space.
\<close>

lemma falsy_cells:
  "\<not> truthy c \<longleftrightarrow> c = PyNone \<or> c = Str [] \<or> c = PyInt 0 \<or> c = PyBool False"
  by (cases c) auto

lemma blank_tn_iff:
  "strip (py_str (or_empty c)) = [] \<longleftrightarrow> \<not> truthy c \<or> (\<exists>s. c = Str s \<and> list_all isspace s)"
proof (cases "truthy c")
  case False
  then show ?thesis by (simp add: or_empty_def strip_Nil)
next
  case True
  then have o: "or_empty c = c" by (simp add: or_empty_def)
  show ?thesis
  proof (cases c)
    case PyNone
    with True show ?thesis by simp
  next
    case NaN
    have "strip (py_str NaN) \<noteq> []" unfolding strip_nan by simp
    with NaN show ?thesis unfolding o by simp
  next
    case (Str s)
    with True show ?thesis unfolding o by (simp add: strip_eq_Nil_iff)
  next
    case (PyInt i)
    with True show ?thesis unfolding o by (simp add: int_str_not_blank)
  next
    case (PyBool b)
    with True show ?thesis unfolding o by (simp add: strip_True)
  qed
qed

lemma or_empty_truthy: "truthy c \<Longrightarrow> or_empty c = c"
  by (simp add: or_empty_def)

lemma norm_row_tn: "row_get NORM_COLS (norm_row cols r original rma tn) ''Tracking Number'' d = Str (upper tn)"
  by (simp add: NORM_COLS_def norm_row_def row_get_def)

lemma record_rows_tn:
  assumes "record_tn cols r = Some tn"
  shows "record_rows cols r \<noteq> []
     \<and> (\<forall>row \<in> set (record_rows cols r). row_get NORM_COLS row ''Tracking Number'' d = Str (upper tn))"
  using assms by (auto simp: record_rows_def Let_def norm_row_tn)

lemma update_cell_rma_keeps_tn:
  "length row = 14 \<Longrightarrow>
   row_get NORM_COLS (update_cell NORM_COLS ''RMA Number'' f row) ''Tracking Number'' d
     = row_get NORM_COLS row ''Tracking Number'' d"
  by (auto simp: NORM_COLS_def row_get_def length_Suc_conv eval_nat_numeral)

lemma length_norm_row: "length (norm_row cols r a b c) = 14"
  by (simp add: norm_row_def)

lemma length_record_row: "row \<in> set (record_rows cols r) \<Longrightarrow> length row = 14"
  by (auto simp: record_rows_def Let_def length_norm_row split: option.splits if_splits)

lemma rows_build_new_norm:
  "rows (build_new_norm df) =
     map (\<lambda>row. update_cell NORM_COLS ''RMA Number''
                  (\<lambda>_. Str (clean_rma_string (row_get NORM_COLS row ''RMA Number'' PyNone))) row)
       (concat (map (record_rows (columns (map_new_columns df))) (rows (map_new_columns df))))"
proof -
  have "''RMA Number'' \<in> set NORM_COLS" by (simp add: NORM_COLS_def)
  then show ?thesis
    by (simp add: build_new_norm_def Let_def normalize_rma_column_inplace_def assign_column_def)
qed

lemma record_tn_nonblank:
  assumes "c = row_get cols r ''Tracking Number'' (Str [])" "truthy c" "strip (py_str c) \<noteq> []"
  shows "record_tn cols r = Some (strip (py_str c))"
  using assms or_empty_truthy[of c] by (simp add: record_tn_def Let_def)

lemma record_tn_blank:
  assumes "strip (py_str (or_empty (row_get cols r ''Tracking Number'' (Str [])))) = []"
  shows "record_tn cols r =
     (case extract_tn_list (row_get cols r ''Tracking Number - Details'' (Str [])) of
        [] \<Rightarrow> None | t # _ \<Rightarrow> Some t)"
  using assms by (simp add: record_tn_def Let_def split: list.splits)

lemma build_new_norm_keeps_tn:
  assumes "r \<in> set (rows (map_new_columns df))"
    and "row \<in> set (record_rows (columns (map_new_columns df)) r)"
  shows "\<exists>row' \<in> set (rows (build_new_norm df)).
     row_get NORM_COLS row' ''Tracking Number'' d = row_get NORM_COLS row ''Tracking Number'' d"
proof -
  let ?u = "\<lambda>row. update_cell NORM_COLS ''RMA Number''
                  (\<lambda>_. Str (clean_rma_string (row_get NORM_COLS row ''RMA Number'' PyNone))) row"
  have "row \<in> set (concat (map (record_rows (columns (map_new_columns df))) (rows (map_new_columns df))))"
    using assms by auto
  then have "?u row \<in> set (rows (build_new_norm df))"
    unfolding rows_build_new_norm set_map by (rule imageI)
  moreover have "row_get NORM_COLS (?u row) ''Tracking Number'' d = row_get NORM_COLS row ''Tracking Number'' d"
    using length_record_row[OF assms(2)] by (rule update_cell_rma_keeps_tn)
  ultimately show ?thesis by blast
qed

lemma blank_or_empty:
  "\<not> truthy c \<or> strip (py_str c) = [] \<Longrightarrow> strip (py_str (or_empty c)) = []"
  by (cases "truthy c") (auto simp: or_empty_def strip_Nil)

lemma nonblank_rows:
  assumes "row_get cols r ''Tracking Number'' (Str []) = c" "truthy c" "strip (py_str c) \<noteq> []"
  shows "record_tn cols r = Some (strip (py_str c)) \<and> record_rows cols r \<noteq> []
          \<and> (\<forall>row \<in> set (record_rows cols r).
                row_get NORM_COLS row ''Tracking Number'' PyNone = Str (upper (strip (py_str c))))"
proof -
  have tn: "record_tn cols r = Some (strip (py_str c))"
    by (rule record_tn_nonblank[OF assms(1)[symmetric] assms(2,3)])
  from tn record_rows_tn[OF tn, of PyNone] show ?thesis by (rule conjI)
qed

lemma upper_nan: "upper ''nan'' = ''NAN''"
  by code_simp

lemma nan_rows:
  assumes n: "row_get cols r ''Tracking Number'' (Str []) = NaN"
  shows "record_rows cols r \<noteq> []
          \<and> (\<forall>row \<in> set (record_rows cols r).
                row_get NORM_COLS row ''Tracking Number'' PyNone = Str ''NAN'')"
proof -
  have t: "truthy NaN" by simp
  have "strip (py_str NaN) \<noteq> []" unfolding strip_nan by simp
  from nonblank_rows[OF n t this] show ?thesis unfolding strip_nan upper_nan by simp
qed

lemma nan_rows_in_table:
  assumes n: "row_get cols r ''Tracking Number'' (Str []) = NaN"
    and c: "cols = columns (map_new_columns df)"
    and r: "r \<in> set (rows (map_new_columns df))"
  shows "\<exists>row \<in> set (rows (build_new_norm df)).
                row_get NORM_COLS row ''Tracking Number'' PyNone = Str ''NAN''"
proof -
  from nan_rows[OF n] obtain row where row: "row \<in> set (record_rows cols r)"
    and tn: "row_get NORM_COLS row ''Tracking Number'' PyNone = Str ''NAN''"
    by (cases "record_rows cols r") auto
  from build_new_norm_keeps_tn[OF r row[unfolded c], of PyNone] tn show ?thesis by auto
qed

lemma fallback_when_blank:
  assumes "\<not> truthy (row_get cols r ''Tracking Number'' (Str []))
        \<or> (\<exists>s. row_get cols r ''Tracking Number'' (Str []) = Str s \<and> list_all isspace s)"
  shows "record_tn cols r =
              (case extract_tn_list (row_get cols r ''Tracking Number - Details'' (Str [])) of
                 [] \<Rightarrow> None | t # _ \<Rightarrow> Some t)"
  by (rule record_tn_blank) (use assms blank_tn_iff in blast)

lemma fallback_only_when_blank:
  assumes ne: "record_tn cols r \<noteq> Some (strip (py_str (row_get cols r ''Tracking Number'' (Str []))))"
  shows "(\<not> truthy (row_get cols r ''Tracking Number'' (Str []))
            \<or> (\<exists>s. row_get cols r ''Tracking Number'' (Str []) = Str s \<and> list_all isspace s))
          \<and> record_tn cols r =
              (case extract_tn_list (row_get cols r ''Tracking Number - Details'' (Str [])) of
                 [] \<Rightarrow> None | t # _ \<Rightarrow> Some t)"
proof -
  let ?c = "row_get cols r ''Tracking Number'' (Str [])"
  have "\<not> truthy ?c \<or> strip (py_str ?c) = []"
    using nonblank_rows[OF refl, of cols r] ne by blast
  then have bl: "strip (py_str (or_empty ?c)) = []" by (rule blank_or_empty)
  from bl[unfolded blank_tn_iff] record_tn_blank[OF bl] show ?thesis by (rule conjI)
qed

text \<open>
  Claim C10, as the code has it. Let \<open>r\<close> be a record of the harmonized table, whose
  labels are pairwise distinct. The code reads the cell through \<^verbatim>\<open>value or ""\<close>, so
  what counts is the truth value of the cell. If the \<^verbatim>\<open>Tracking Number\<close> cell is a true
  value whose text is not blank after trimming, the record is never skipped and never
  looks at the details cell: its tracking number is that text, and every row it appends
  carries it upper-cased. This holds for a NaN cell, whose text is \<^verbatim>\<open>nan\<close>: its rows
  carry the tracking number \<^verbatim>\<open>NAN\<close>, also in the table \<^verbatim>\<open>build_new_norm\<close> returns.
  The tracking number is the first one of the details cell, or none, and then the record
  is skipped, when the cell is a false value (\<^verbatim>\<open>None\<close>, the empty text, the number
  zero, \<^verbatim>\<open>False\<close>) or a text of white space, and only then.
\<close>

theorem tracking_number_cell_truthy_never_skipped:
  assumes "wf_table (map_new_columns df)" "r \<in> set (rows (map_new_columns df))"
    and "cols = columns (map_new_columns df)"
  shows
  "(\<forall>c. row_get cols r ''Tracking Number'' (Str []) = c \<and> truthy c \<and> strip (py_str c) \<noteq> []
      \<longrightarrow> record_tn cols r = Some (strip (py_str c))
          \<and> record_rows cols r \<noteq> []
          \<and> (\<forall>row \<in> set (record_rows cols r).
                row_get NORM_COLS row ''Tracking Number'' PyNone = Str (upper (strip (py_str c)))))
   \<and> (row_get cols r ''Tracking Number'' (Str []) = NaN
      \<longrightarrow> record_rows cols r \<noteq> []
          \<and> (\<forall>row \<in> set (record_rows cols r).
                row_get NORM_COLS row ''Tracking Number'' PyNone = Str ''NAN'')
          \<and> (\<exists>row \<in> set (rows (build_new_norm df)).
                row_get NORM_COLS row ''Tracking Number'' PyNone = Str ''NAN''))
   \<and> (record_tn cols r \<noteq> Some (strip (py_str (row_get cols r ''Tracking Number'' (Str []))))
      \<longrightarrow> (\<not> truthy (row_get cols r ''Tracking Number'' (Str []))
            \<or> (\<exists>s. row_get cols r ''Tracking Number'' (Str []) = Str s \<and> list_all isspace s))
          \<and> record_tn cols r =
              (case extract_tn_list (row_get cols r ''Tracking Number - Details'' (Str [])) of
                 [] \<Rightarrow> None | t # _ \<Rightarrow> Some t))
   \<and> (\<not> truthy (row_get cols r ''Tracking Number'' (Str []))
        \<or> (\<exists>s. row_get cols r ''Tracking Number'' (Str []) = Str s \<and> list_all isspace s)
      \<longrightarrow> record_tn cols r =
              (case extract_tn_list (row_get cols r ''Tracking Number - Details'' (Str [])) of
                 [] \<Rightarrow> None | t # _ \<Rightarrow> Some t))
   \<and> (\<forall>c. \<not> truthy c \<longleftrightarrow> c = PyNone \<or> c = Str [] \<or> c = PyInt 0 \<or> c = PyBool False)"
proof -
  let ?c = "row_get cols r ''Tracking Number'' (Str [])"
  have P1: "\<forall>c. ?c = c \<and> truthy c \<and> strip (py_str c) \<noteq> []
      \<longrightarrow> record_tn cols r = Some (strip (py_str c))
          \<and> record_rows cols r \<noteq> []
          \<and> (\<forall>row \<in> set (record_rows cols r).
                row_get NORM_COLS row ''Tracking Number'' PyNone = Str (upper (strip (py_str c))))"
  proof (intro allI impI)
    fix c assume "?c = c \<and> truthy c \<and> strip (py_str c) \<noteq> []"
    then have "?c = c" "truthy c" "strip (py_str c) \<noteq> []" by blast+
    then show "record_tn cols r = Some (strip (py_str c))
          \<and> record_rows cols r \<noteq> []
          \<and> (\<forall>row \<in> set (record_rows cols r).
                row_get NORM_COLS row ''Tracking Number'' PyNone = Str (upper (strip (py_str c))))"
      by (rule nonblank_rows)
  qed
  have P2: "?c = NaN
      \<longrightarrow> record_rows cols r \<noteq> []
          \<and> (\<forall>row \<in> set (record_rows cols r).
                row_get NORM_COLS row ''Tracking Number'' PyNone = Str ''NAN'')
          \<and> (\<exists>row \<in> set (rows (build_new_norm df)).
                row_get NORM_COLS row ''Tracking Number'' PyNone = Str ''NAN'')"
  proof
    assume n: "?c = NaN"
    note a = nan_rows[OF n, THEN conjunct1]
    note b = nan_rows[OF n, THEN conjunct2]
    note c = nan_rows_in_table[OF n assms(3) assms(2)]
    from a b c
    show "record_rows cols r \<noteq> []
          \<and> (\<forall>row \<in> set (record_rows cols r).
                row_get NORM_COLS row ''Tracking Number'' PyNone = Str ''NAN'')
          \<and> (\<exists>row \<in> set (rows (build_new_norm df)).
                row_get NORM_COLS row ''Tracking Number'' PyNone = Str ''NAN'')"
      by (intro conjI)
  qed
  have P3: "record_tn cols r \<noteq> Some (strip (py_str ?c))
      \<longrightarrow> (\<not> truthy ?c \<or> (\<exists>s. ?c = Str s \<and> list_all isspace s))
          \<and> record_tn cols r =
              (case extract_tn_list (row_get cols r ''Tracking Number - Details'' (Str [])) of
                 [] \<Rightarrow> None | t # _ \<Rightarrow> Some t)"
    using fallback_only_when_blank[of cols r] by (rule impI)
  have P4: "\<not> truthy ?c \<or> (\<exists>s. ?c = Str s \<and> list_all isspace s)
      \<longrightarrow> record_tn cols r =
              (case extract_tn_list (row_get cols r ''Tracking Number - Details'' (Str [])) of
                 [] \<Rightarrow> None | t # _ \<Rightarrow> Some t)"
    using fallback_when_blank[of cols r] by (rule impI)
  have P5: "\<forall>c. \<not> truthy c \<longleftrightarrow> c = PyNone \<or> c = Str [] \<or> c = PyInt 0 \<or> c = PyBool False"
    using falsy_cells by (rule allI)
  from P1 P2 P3 P4 P5 show ?thesis by (intro conjI)
qed

theorem tracking_number_cell_truthy_never_skipped_witness:
  "wf_table (map_new_columns
       \<lparr>columns = [''Tracking Number'', ''Tracking Number - Details''],
          rows = [[NaN, Str ''1Z1234567890ABCDEF''], [Str '' '', Str ''see 1z1234567890abcdef''],
                  [Str '' t1 '', Str [] ], [PyInt 0, Str ''1Z1234567890ABCDEF'']]\<rparr>)
   \<and> row_get (columns (map_new_columns
       \<lparr>columns = [''Tracking Number'', ''Tracking Number - Details''],
          rows = [[NaN, Str ''1Z1234567890ABCDEF''], [Str '' '', Str ''see 1z1234567890abcdef''],
                  [Str '' t1 '', Str [] ], [PyInt 0, Str ''1Z1234567890ABCDEF'']]\<rparr>))
       (rows (map_new_columns
       \<lparr>columns = [''Tracking Number'', ''Tracking Number - Details''],
          rows = [[NaN, Str ''1Z1234567890ABCDEF''], [Str '' '', Str ''see 1z1234567890abcdef''],
                  [Str '' t1 '', Str [] ], [PyInt 0, Str ''1Z1234567890ABCDEF'']]\<rparr>) ! 0)
       ''Tracking Number'' (Str []) = NaN
   \<and> (\<exists>row \<in> set (rows (build_new_norm
       \<lparr>columns = [''Tracking Number'', ''Tracking Number - Details''],
          rows = [[NaN, Str ''1Z1234567890ABCDEF''], [Str '' '', Str ''see 1z1234567890abcdef''],
                  [Str '' t1 '', Str [] ], [PyInt 0, Str ''1Z1234567890ABCDEF'']]\<rparr>)).
          row_get NORM_COLS row ''Tracking Number'' PyNone = Str ''NAN'')
   \<and> record_tn (columns (map_new_columns
       \<lparr>columns = [''Tracking Number'', ''Tracking Number - Details''],
          rows = [[NaN, Str ''1Z1234567890ABCDEF''], [Str '' '', Str ''see 1z1234567890abcdef''],
                  [Str '' t1 '', Str [] ], [PyInt 0, Str ''1Z1234567890ABCDEF'']]\<rparr>))
       (rows (map_new_columns
       \<lparr>columns = [''Tracking Number'', ''Tracking Number - Details''],
          rows = [[NaN, Str ''1Z1234567890ABCDEF''], [Str '' '', Str ''see 1z1234567890abcdef''],
                  [Str '' t1 '', Str [] ], [PyInt 0, Str ''1Z1234567890ABCDEF'']]\<rparr>) ! 1)
       = Some ''1Z1234567890ABCDEF''
   \<and> record_tn (columns (map_new_columns
       \<lparr>columns = [''Tracking Number'', ''Tracking Number - Details''],
          rows = [[NaN, Str ''1Z1234567890ABCDEF''], [Str '' '', Str ''see 1z1234567890abcdef''],
                  [Str '' t1 '', Str [] ], [PyInt 0, Str ''1Z1234567890ABCDEF'']]\<rparr>))
       (rows (map_new_columns
       \<lparr>columns = [''Tracking Number'', ''Tracking Number - Details''],
          rows = [[NaN, Str ''1Z1234567890ABCDEF''], [Str '' '', Str ''see 1z1234567890abcdef''],
                  [Str '' t1 '', Str [] ], [PyInt 0, Str ''1Z1234567890ABCDEF'']]\<rparr>) ! 2)
       = Some ''t1''
   \<and> row_get (columns (map_new_columns
       \<lparr>columns = [''Tracking Number'', ''Tracking Number - Details''],
          rows = [[NaN, Str ''1Z1234567890ABCDEF''], [Str '' '', Str ''see 1z1234567890abcdef''],
                  [Str '' t1 '', Str [] ], [PyInt 0, Str ''1Z1234567890ABCDEF'']]\<rparr>))
       (rows (map_new_columns
       \<lparr>columns = [''Tracking Number'', ''Tracking Number - Details''],
          rows = [[NaN, Str ''1Z1234567890ABCDEF''], [Str '' '', Str ''see 1z1234567890abcdef''],
                  [Str '' t1 '', Str [] ], [PyInt 0, Str ''1Z1234567890ABCDEF'']]\<rparr>) ! 3)
       ''Tracking Number'' (Str []) = PyInt 0
   \<and> record_tn (columns (map_new_columns
       \<lparr>columns = [''Tracking Number'', ''Tracking Number - Details''],
          rows = [[NaN, Str ''1Z1234567890ABCDEF''], [Str '' '', Str ''see 1z1234567890abcdef''],
                  [Str '' t1 '', Str [] ], [PyInt 0, Str ''1Z1234567890ABCDEF'']]\<rparr>))
       (rows (map_new_columns
       \<lparr>columns = [''Tracking Number'', ''Tracking Number - Details''],
          rows = [[NaN, Str ''1Z1234567890ABCDEF''], [Str '' '', Str ''see 1z1234567890abcdef''],
                  [Str '' t1 '', Str [] ], [PyInt 0, Str ''1Z1234567890ABCDEF'']]\<rparr>) ! 3)
       = Some ''1Z1234567890ABCDEF''"
proof -
  let ?df = "\<lparr>columns = [''Tracking Number'', ''Tracking Number - Details''],
          rows = [[NaN, Str ''1Z1234567890ABCDEF''], [Str '' '', Str ''see 1z1234567890abcdef''],
                  [Str '' t1 '', Str [] ], [PyInt 0, Str ''1Z1234567890ABCDEF'']]\<rparr>"
  let ?c = "columns (map_new_columns ?df)"
  let ?r = "rows (map_new_columns ?df) ! 0"
  let ?q = "rows (map_new_columns ?df) ! 1"
  let ?p = "rows (map_new_columns ?df) ! 2"
  let ?z = "rows (map_new_columns ?df) ! 3"
  have w: "wf_table (map_new_columns ?df)" by code_simp
  have len: "length (rows (map_new_columns ?df)) = 4" by code_simp
  have r: "?r \<in> set (rows (map_new_columns ?df))" and q: "?q \<in> set (rows (map_new_columns ?df))"
    and p: "?p \<in> set (rows (map_new_columns ?df))" and z: "?z \<in> set (rows (map_new_columns ?df))"
    using len by (simp_all only: nth_mem)
  have a: "row_get ?c ?r ''Tracking Number'' (Str []) = NaN" by code_simp
  have b: "record_tn ?c ?q \<noteq> Some (strip (py_str (row_get ?c ?q ''Tracking Number'' (Str []))))"
    by code_simp
  have c: "(case extract_tn_list (row_get ?c ?q ''Tracking Number - Details'' (Str [])) of
                 [] \<Rightarrow> None | t # _ \<Rightarrow> Some t) = Some ''1Z1234567890ABCDEF''"
    by code_simp
  have d: "row_get ?c ?p ''Tracking Number'' (Str []) = Str '' t1 '' \<and> truthy (Str '' t1 '')
      \<and> strip (py_str (Str '' t1 '')) \<noteq> []"
    by code_simp
  have e: "strip (py_str (Str '' t1 '')) = ''t1''" by code_simp
  have f: "row_get ?c ?z ''Tracking Number'' (Str []) = PyInt 0" by code_simp
  have g: "\<not> truthy (row_get ?c ?z ''Tracking Number'' (Str []))" unfolding f by simp
  have h: "(case extract_tn_list (row_get ?c ?z ''Tracking Number - Details'' (Str [])) of
                 [] \<Rightarrow> None | t # _ \<Rightarrow> Some t) = Some ''1Z1234567890ABCDEF''"
    by code_simp
  note t = tracking_number_cell_truthy_never_skipped[OF w _ refl]
  have 1: "\<exists>row \<in> set (rows (build_new_norm ?df)).
          row_get NORM_COLS row ''Tracking Number'' PyNone = Str ''NAN''"
    by (rule t[OF r, THEN conjunct2, THEN conjunct1, THEN mp, OF a, THEN conjunct2, THEN conjunct2])
  have "record_tn ?c ?q =
              (case extract_tn_list (row_get ?c ?q ''Tracking Number - Details'' (Str [])) of
                 [] \<Rightarrow> None | t # _ \<Rightarrow> Some t)"
    by (rule t[OF q, THEN conjunct2, THEN conjunct2, THEN conjunct1, THEN mp, OF b, THEN conjunct2])
  then have 2: "record_tn ?c ?q = Some ''1Z1234567890ABCDEF''" by (simp only: c)
  have "record_tn ?c ?p = Some (strip (py_str (Str '' t1 '')))"
    by (rule t[OF p, THEN conjunct1, THEN spec, THEN mp, OF d, THEN conjunct1])
  then have 3: "record_tn ?c ?p = Some ''t1''" by (simp only: e)
  have "record_tn ?c ?z =
              (case extract_tn_list (row_get ?c ?z ''Tracking Number - Details'' (Str [])) of
                 [] \<Rightarrow> None | t # _ \<Rightarrow> Some t)"
    by (rule t[OF z, THEN conjunct2, THEN conjunct2, THEN conjunct2, THEN conjunct1, THEN mp,
          OF disjI1[OF g]])
  then have 4: "record_tn ?c ?z = Some ''1Z1234567890ABCDEF''" by (simp only: h)
  from w a 1 2 3 f 4 show ?thesis by (intro conjI)
qed

text \<open>
  The claim C10 as it is worded fails on a cell that is not \<^verbatim>\<open>None\<close> and whose text is
  not blank, but which is a false value: the number \<^verbatim>\<open>0\<close> has the text \<^verbatim>\<open>0\<close>, and
  \<^verbatim>\<open>0 or ""\<close> is the empty text. With a tracking number in the details cell the
  record takes that one; with none the record is skipped.
\<close>

theorem tracking_number_cell_zero_counterexample:
  "PyInt 0 \<noteq> PyNone
   \<and> strip (py_str (PyInt 0)) = ''0''
   \<and> record_tn [''Tracking Number'', ''Tracking Number - Details'']
        [PyInt 0, Str ''1Z1234567890ABCDEF''] = Some ''1Z1234567890ABCDEF''
   \<and> record_rows [''Tracking Number'', ''Tracking Number - Details''] [PyInt 0, Str []] = []
   \<and> rows (build_new_norm \<lparr>columns = [''Tracking Number'', ''RMA Number''],
                             rows = [[PyInt 0, Str ''RMA 67024814'']]\<rparr>) = []"
  by code_simp

section \<open>Column harmonization is idempotent\<close>

lemma canonical_fixed: "list_all (\<lambda>n. cols_new n = n) (map snd mapping)"
  by code_simp

lemma cols_new_range: "cols_new c = c \<or> cols_new c \<in> set (map snd mapping)"
proof (cases "map_of mapping (strip (lower c))")
  case None
  then show ?thesis by (simp add: cols_new_def)
next
  case (Some n)
  then have "(strip (lower c), n) \<in> set mapping" by (rule map_of_SomeD)
  then have "n \<in> set (map snd mapping)" by force
  with Some show ?thesis by (simp add: cols_new_def)
qed

lemma cols_new_canonical: "n \<in> set (map snd mapping) \<Longrightarrow> cols_new n = n"
  using canonical_fixed by (auto simp: list_all_iff)

lemma cols_new_idem: "cols_new (cols_new c) = cols_new c"
  using cols_new_range[of c] cols_new_canonical by auto

lemma ensure_column_present: "c \<in> set (columns df) \<Longrightarrow> ensure_column c df = df"
  by (simp add: ensure_column_def)

lemma columns_ensure_column:
  "columns (ensure_column c df) = (if c \<in> set (columns df) then columns df else columns df @ [c])"
  by (simp add: ensure_column_def assign_column_def)

lemma rows_ensure_column:
  "rows (ensure_column c df) = (if c \<in> set (columns df) then rows df else map (\<lambda>r. r @ [Str []]) (rows df))"
  by (simp add: ensure_column_def assign_column_def)

lemma set_columns_fold_ensure:
  "set (columns (fold ensure_column cs df)) = set (columns df) \<union> set cs"
  by (induction cs arbitrary: df) (auto simp: columns_ensure_column)

lemma fold_ensure_present: "set cs \<subseteq> set (columns df) \<Longrightarrow> fold ensure_column cs df = df"
  by (induction cs arbitrary: df) (auto simp: ensure_column_present)

lemma rename_fixed:
  fixes df :: table
  assumes "\<forall>c \<in> set (columns df). cols_new c = c"
  shows "df\<lparr>columns := map cols_new (columns df)\<rparr> = df"
proof -
  have "map cols_new (columns df) = columns df" using assms by (simp add: map_idI)
  then show ?thesis by simp
qed

lemma map_new_columns_idem: "map_new_columns (map_new_columns df) = map_new_columns df"
proof -
  let ?d1 = "df\<lparr>columns := map cols_new (columns df)\<rparr>"
  let ?M = "map snd mapping"
  have cols: "set (columns (map_new_columns df)) = set (map cols_new (columns df)) \<union> set ?M"
    unfolding map_new_columns_def set_columns_fold_ensure by simp
  have "\<forall>c \<in> set (columns (map_new_columns df)). cols_new c = c"
    unfolding cols using cols_new_idem cols_new_canonical by auto
  then have "(map_new_columns df)\<lparr>columns := map cols_new (columns (map_new_columns df))\<rparr> = map_new_columns df"
    by (rule rename_fixed)
  moreover have "fold ensure_column ?M (map_new_columns df) = map_new_columns df"
    by (rule fold_ensure_present) (simp add: cols)
  ultimately show ?thesis by (simp add: map_new_columns_def[of "map_new_columns df"])
qed

lemma row_lookup_append:
  "length r = length cols \<Longrightarrow>
   row_lookup (cols @ cs) (r @ rs) k =
     (case row_lookup cols r k of Some v \<Rightarrow> Some v | None \<Rightarrow> row_lookup cs rs k)"
proof (induction cols arbitrary: r)
  case Nil
  then show ?case by simp
next
  case (Cons a cols)
  then obtain v vs where "r = v # vs" by (cases r) auto
  with Cons show ?case by simp
qed

lemma row_lookup_None_iff:
  "length r = length cols \<Longrightarrow> row_lookup cols r k = None \<longleftrightarrow> k \<notin> set cols"
proof (induction cols arbitrary: r)
  case Nil
  then show ?case by simp
next
  case (Cons a cols)
  then obtain v vs where "r = v # vs" by (cases r) auto
  with Cons show ?case by auto
qed

lemma row_get_append_old:
  "length r = length cols \<Longrightarrow> k \<in> set cols \<Longrightarrow> row_get (cols @ cs) (r @ rs) k d = row_get cols r k d"
  using row_lookup_None_iff[of r cols k]
  by (auto simp: row_get_def row_lookup_append split: option.splits)

lemma row_get_append_new:
  "length r = length cols \<Longrightarrow> k \<notin> set cols \<Longrightarrow> row_get (cols @ [k]) (r @ [v]) k d = v"
  using row_lookup_None_iff[of r cols k]
  by (auto simp: row_get_def row_lookup_append split: option.splits)

lemma aligned_ensure_column: "aligned df \<Longrightarrow> aligned (ensure_column c df)"
  by (auto simp: aligned_def list_all_iff columns_ensure_column rows_ensure_column)

text \<open>The cells of a column, from the first row to the last.\<close>

lemma ensure_column_keeps:
  assumes "aligned df" "k \<in> set (columns df)"
  shows "map (\<lambda>r. row_get (columns (ensure_column c df)) r k d) (rows (ensure_column c df))
       = map (\<lambda>r. row_get (columns df) r k d) (rows df)"
  using assms
  by (auto simp: columns_ensure_column rows_ensure_column aligned_def list_all_iff row_get_append_old)

lemma fold_ensure_keeps:
  assumes "aligned df" "k \<in> set (columns df)"
  shows "map (\<lambda>r. row_get (columns (fold ensure_column cs df)) r k d) (rows (fold ensure_column cs df))
       = map (\<lambda>r. row_get (columns df) r k d) (rows df)"
  using assms
proof (induction cs arbitrary: df)
  case Nil
  then show ?case by simp
next
  case (Cons c cs)
  have a: "aligned (ensure_column c df)" using Cons.prems(1) by (rule aligned_ensure_column)
  have k: "k \<in> set (columns (ensure_column c df))" using Cons.prems(2) by (simp add: columns_ensure_column)
  show ?case using Cons.IH[OF a k] ensure_column_keeps[OF Cons.prems] by simp
qed

lemma ensure_column_new_blank:
  assumes "aligned df" "c \<notin> set (columns df)" "r \<in> set (rows (ensure_column c df))"
  shows "row_get (columns (ensure_column c df)) r c d = Str []"
  using assms
  by (auto simp: columns_ensure_column rows_ensure_column aligned_def list_all_iff row_get_append_new)

lemma fold_ensure_new_blank:
  assumes "aligned df" "c \<in> set cs" "c \<notin> set (columns df)"
  shows "\<forall>r \<in> set (rows (fold ensure_column cs df)). row_get (columns (fold ensure_column cs df)) r c d = Str []"
  using assms
proof (induction cs arbitrary: df)
  case Nil
  then show ?case by simp
next
  case (Cons a cs)
  have al: "aligned (ensure_column a df)" using Cons.prems(1) by (rule aligned_ensure_column)
  show ?case
  proof (cases "a = c")
    case True
    have k: "c \<in> set (columns (ensure_column c df))" by (simp add: columns_ensure_column)
    have "\<forall>x \<in> set (map (\<lambda>r. row_get (columns (ensure_column c df)) r c d) (rows (ensure_column c df))). x = Str []"
      using ensure_column_new_blank[OF Cons.prems(1) Cons.prems(3)] by auto
    then have "\<forall>x \<in> set (map (\<lambda>r. row_get (columns (fold ensure_column cs (ensure_column c df))) r c d)
                     (rows (fold ensure_column cs (ensure_column c df)))). x = Str []"
      unfolding fold_ensure_keeps[OF al[unfolded True] k] .
    then show ?thesis using True by auto
  next
    case False
    then have "c \<in> set cs" "c \<notin> set (columns (ensure_column a df))"
      using Cons.prems by (auto simp: columns_ensure_column)
    from Cons.IH[OF al this] show ?thesis by simp
  qed
qed

lemma canonical_lookup: "list_all (\<lambda>n. map_of mapping (strip (lower n)) = Some n) (map snd mapping)"
  by code_simp

lemma unmatched_not_image:
  assumes "map_of mapping (strip (lower c)) = None" "cols_new k = c"
  shows "k = c"
proof (rule ccontr)
  assume "k \<noteq> c"
  with assms(2) cols_new_range[of k] have "c \<in> set (map snd mapping)" by auto
  with canonical_lookup have "map_of mapping (strip (lower c)) = Some c"
    by (auto simp: list_all_iff)
  with assms(1) show False by simp
qed

lemma row_lookup_rename:
  assumes "\<forall>k \<in> set cols. f k = c \<longrightarrow> k = c" "f c = c"
  shows "row_lookup (map f cols) r c = row_lookup cols r c"
  using assms
proof (induction cols arbitrary: r)
  case Nil
  then show ?case by simp
next
  case (Cons a cols)
  show ?case
  proof (cases r)
    case Nil
    then show ?thesis by simp
  next
    case (Cons v vs)
    with Cons.IH[of vs] Cons.prems show ?thesis by auto
  qed
qed

lemma rename_keeps_unmatched:
  assumes "map_of mapping (strip (lower c)) = None"
  shows "row_get (map cols_new cols) r c d = row_get cols r c d"
proof -
  have "cols_new c = c" using assms by (simp add: cols_new_def)
  moreover have "\<forall>k \<in> set cols. cols_new k = c \<longrightarrow> k = c"
    using unmatched_not_image[OF assms] by blast
  ultimately show ?thesis unfolding row_get_def by (simp add: row_lookup_rename)
qed

lemma aligned_rename: "aligned df \<Longrightarrow> aligned (df\<lparr>columns := map cols_new (columns df)\<rparr>)"
  by (simp add: aligned_def)

lemma unmatched_passes:
  assumes al: "aligned df" and c: "c \<in> set (columns df)" and u: "map_of mapping (strip (lower c)) = None"
  shows "c \<in> set (columns (map_new_columns df))
     \<and> map (\<lambda>r. row_get (columns (map_new_columns df)) r c d) (rows (map_new_columns df))
       = map (\<lambda>r. row_get (columns df) r c d) (rows df)"
proof -
  let ?d1 = "df\<lparr>columns := map cols_new (columns df)\<rparr>"
  have fx: "cols_new c = c" using u by (simp add: cols_new_def)
  have k: "c \<in> set (columns ?d1)" using c fx by force
  have "map (\<lambda>r. row_get (columns (fold ensure_column (map snd mapping) ?d1)) r c d)
            (rows (fold ensure_column (map snd mapping) ?d1))
      = map (\<lambda>r. row_get (columns ?d1) r c d) (rows ?d1)"
    by (rule fold_ensure_keeps[OF aligned_rename[OF al] k])
  also have "\<dots> = map (\<lambda>r. row_get (columns df) r c d) (rows df)"
    by (simp add: rename_keeps_unmatched[OF u])
  finally show ?thesis using k by (simp add: map_new_columns_def set_columns_fold_ensure)
qed

lemma canonical_present: "c \<in> set (map snd mapping) \<Longrightarrow> c \<in> set (columns (map_new_columns df))"
  by (simp add: map_new_columns_def set_columns_fold_ensure)

lemma canonical_absent_blank:
  assumes "aligned df" "c \<in> set (map snd mapping)" "c \<notin> set (map cols_new (columns df))"
  shows "\<forall>r \<in> set (rows (map_new_columns df)). row_get (columns (map_new_columns df)) r c d = Str []"
  unfolding map_new_columns_def
  by (rule fold_ensure_new_blank[OF aligned_rename[OF assms(1)] assms(2)]) (use assms(3) in simp)

text \<open>
  Claim C8. Harmonizing the columns twice gives the table that harmonizing once gives.
  After one application every canonical column is present; on a table whose rows have
  one cell per column, a canonical column that was absent after the renaming holds the
  empty string in every row, and a column whose lower-cased, trimmed name is no known
  variant keeps its name and its cells.
\<close>

theorem map_new_columns_idempotent:
  "map_new_columns (map_new_columns df) = map_new_columns df
   \<and> (\<forall>c \<in> set (map snd mapping). c \<in> set (columns (map_new_columns df)))
   \<and> (aligned df \<longrightarrow>
        (\<forall>c \<in> set (map snd mapping). c \<notin> set (map cols_new (columns df)) \<longrightarrow>
           (\<forall>r \<in> set (rows (map_new_columns df)).
              row_get (columns (map_new_columns df)) r c d = Str []))
      \<and> (\<forall>c \<in> set (columns df). map_of mapping (strip (lower c)) = None \<longrightarrow>
           c \<in> set (columns (map_new_columns df))
           \<and> map (\<lambda>r. row_get (columns (map_new_columns df)) r c d) (rows (map_new_columns df))
             = map (\<lambda>r. row_get (columns df) r c d) (rows df)))"
  using map_new_columns_idem[of df] canonical_present[of _ df]
    canonical_absent_blank[of df _ d] unmatched_passes[of df _ d]
  by (intro conjI ballI impI) blast+

theorem map_new_columns_idempotent_witness:
  "aligned \<lparr>columns = [''tracking number '', ''Note''], rows = [[Str ''T1'', Str ''x'']]\<rparr>
   \<and> ''Status'' \<in> set (map snd mapping)
   \<and> ''Status'' \<in> set (columns (map_new_columns
          \<lparr>columns = [''tracking number '', ''Note''], rows = [[Str ''T1'', Str ''x'']]\<rparr>))
   \<and> ''Status'' \<notin> set (map cols_new [''tracking number '', ''Note''])
   \<and> length (rows (map_new_columns
          \<lparr>columns = [''tracking number '', ''Note''], rows = [[Str ''T1'', Str ''x'']]\<rparr>)) = 1
   \<and> row_get (columns (map_new_columns
          \<lparr>columns = [''tracking number '', ''Note''], rows = [[Str ''T1'', Str ''x'']]\<rparr>))
        (rows (map_new_columns
          \<lparr>columns = [''tracking number '', ''Note''], rows = [[Str ''T1'', Str ''x'']]\<rparr>) ! 0)
        ''Status'' PyNone = Str []
   \<and> map_of mapping (strip (lower ''Note'')) = None
   \<and> map (\<lambda>r. row_get (columns (map_new_columns
              \<lparr>columns = [''tracking number '', ''Note''], rows = [[Str ''T1'', Str ''x'']]\<rparr>)) r ''Note'' PyNone)
        (rows (map_new_columns
              \<lparr>columns = [''tracking number '', ''Note''], rows = [[Str ''T1'', Str ''x'']]\<rparr>))
      = [Str ''x'']
   \<and> columns (map_new_columns
          \<lparr>columns = [''tracking number '', ''Note''], rows = [[Str ''T1'', Str ''x'']]\<rparr>)
      = [''Tracking Number'', ''Note'', ''Manifest Date'', ''Package Reference No. 1'',
         ''Package Reference No. 2'', ''RMA Number'', ''Tracking Number - Details'', ''Status'',
         ''Shipper Name'', ''Ship To'', ''Scheduled Delivery'', ''Original Scheduled Delivery Date'',
         ''Date Delivered'', ''Exception Description'', ''Exception Resolution'', ''Ship To Location'',
         ''Weight'']"
proof -
  let ?df = "\<lparr>columns = [''tracking number '', ''Note''], rows = [[Str ''T1'', Str ''x'']]\<rparr>"
  have a: "aligned ?df" by code_simp
  have b: "''Status'' \<in> set (map snd mapping)" by code_simp
  have c: "''Status'' \<notin> set (map cols_new (columns ?df))" by code_simp
  have c': "''Status'' \<notin> set (map cols_new [''tracking number '', ''Note''])" using c by simp
  have e: "length (rows (map_new_columns ?df)) = 1" by code_simp
  then have r: "rows (map_new_columns ?df) ! 0 \<in> set (rows (map_new_columns ?df))"
    by (simp only: nth_mem zero_less_one)
  have f: "map_of mapping (strip (lower ''Note'')) = None" by code_simp
  have g: "''Note'' \<in> set (columns ?df)" by simp
  have h: "map (\<lambda>r. row_get (columns ?df) r ''Note'' PyNone) (rows ?df) = [Str ''x'']" by code_simp
  have cs: "columns (map_new_columns ?df)
      = [''Tracking Number'', ''Note'', ''Manifest Date'', ''Package Reference No. 1'',
         ''Package Reference No. 2'', ''RMA Number'', ''Tracking Number - Details'', ''Status'',
         ''Shipper Name'', ''Ship To'', ''Scheduled Delivery'', ''Original Scheduled Delivery Date'',
         ''Date Delivered'', ''Exception Description'', ''Exception Resolution'', ''Ship To Location'',
         ''Weight'']" by code_simp
  have b': "''Status'' \<in> set (columns (map_new_columns ?df))"
    by (rule map_new_columns_idempotent[of ?df PyNone, THEN conjunct2, THEN conjunct1, THEN bspec, OF b])
  note t = map_new_columns_idempotent[of ?df PyNone, THEN conjunct2, THEN conjunct2, THEN mp, OF a]
  have 1: "row_get (columns (map_new_columns ?df)) (rows (map_new_columns ?df) ! 0) ''Status'' PyNone = Str []"
    by (rule t[THEN conjunct1, THEN bspec, OF b, THEN mp, OF c, THEN bspec, OF r])
  have 2: "map (\<lambda>r. row_get (columns (map_new_columns ?df)) r ''Note'' PyNone) (rows (map_new_columns ?df))
      = [Str ''x'']"
    using t[THEN conjunct2, THEN bspec, OF g, THEN mp, OF f, THEN conjunct2] h by (rule trans)
  from a b b' c' e 1 f 2 cs show ?thesis by (intro conjI)
qed

section \<open>The fallback patch: frame and rule\<close>

lemma row_lookup_update_cell_other:
  "k \<noteq> c \<Longrightarrow> row_lookup cols (update_cell cols c f r) k = row_lookup cols r k"
proof (induction cols arbitrary: r)
  case Nil
  then show ?case by simp
next
  case (Cons a cols)
  then show ?case by (cases r) auto
qed

lemma row_lookup_update_cell_same:
  "length r = length cols \<Longrightarrow> c \<in> set cols \<Longrightarrow> row_lookup cols (update_cell cols c f r) c
     = map_option f (row_lookup cols r c)"
proof (induction cols arbitrary: r)
  case Nil
  then show ?case by simp
next
  case (Cons a cols)
  then show ?case by (cases r) auto
qed

lemma length_update_cell: "length (update_cell cols c f r) = length r"
proof (induction cols arbitrary: r)
  case Nil
  then show ?case by simp
next
  case (Cons a cols)
  then show ?case by (cases r) auto
qed

lemma columns_assign_column:
  "columns (assign_column c f df) = (if c \<in> set (columns df) then columns df else columns df @ [c])"
  by (simp add: assign_column_def)

lemma aligned_assign_column: "aligned df \<Longrightarrow> aligned (assign_column c f df)"
  by (auto simp: aligned_def list_all_iff assign_column_def length_update_cell)

lemma assign_column_keeps_others:
  assumes "aligned df" "k \<noteq> c"
  shows "map (\<lambda>r. row_get (columns (assign_column c f df)) r k d) (rows (assign_column c f df))
       = map (\<lambda>r. row_get (columns df) r k d) (rows df)"
proof (cases "c \<in> set (columns df)")
  case True
  then show ?thesis using assms(2)
    by (simp add: assign_column_def row_get_def row_lookup_update_cell_other comp_def)
next
  case False
  have "row_get (columns df @ [c]) (r @ [f r]) k d = row_get (columns df) r k d"
    if "r \<in> set (rows df)" for r
  proof -
    have l: "length r = length (columns df)" using assms(1) that by (simp add: aligned_def list_all_iff)
    show ?thesis using assms(2)
      by (simp add: row_get_def row_lookup_append[OF l] split: option.splits)
  qed
  with False show ?thesis by (simp add: assign_column_def comp_def)
qed

lemma assign_column_sets:
  assumes "aligned df"
  shows "map (\<lambda>r. row_get (columns (assign_column c f df)) r c d) (rows (assign_column c f df))
       = map f (rows df)"
proof (cases "c \<in> set (columns df)")
  case True
  have "row_get (columns df) (update_cell (columns df) c (\<lambda>_. f r) r) c d = f r"
    if "r \<in> set (rows df)" for r
  proof -
    have l: "length r = length (columns df)" using assms(1) that by (simp add: aligned_def list_all_iff)
    from row_lookup_None_iff[OF l, of c] True obtain v where "row_lookup (columns df) r c = Some v"
      by auto
    then show ?thesis by (simp add: row_get_def row_lookup_update_cell_same[OF l True])
  qed
  with True show ?thesis by (simp add: assign_column_def comp_def)
next
  case False
  have "row_get (columns df @ [c]) (r @ [f r]) c d = f r" if "r \<in> set (rows df)" for r
  proof -
    have l: "length r = length (columns df)" using assms(1) that by (simp add: aligned_def list_all_iff)
    show ?thesis by (rule row_get_append_new[OF l False])
  qed
  with False show ?thesis by (simp add: assign_column_def comp_def)
qed

lemma filter_columns_assign_column:
  "filter (\<lambda>k. k \<noteq> c) (columns (assign_column c f df)) = filter (\<lambda>k. k \<noteq> c) (columns df)"
  by (simp add: columns_assign_column)

lemma patch_store_pure:
  "patch_rma_na_with_pr2_store h a b =
     (if df_empty (h ! a) \<or> df_empty (h ! b) then (a, h)
      else (length h, h @ [patch_rma_na_with_pr2 (h ! a) (h ! b)]))"
  by (simp add: patch_rma_na_with_pr2_store_def patch_rma_na_with_pr2_def df_copy_def
      df_setitem_def Let_def nth_append)

lemma patch_keeps_others:
  assumes "aligned rec" "k \<noteq> ''RMA Number''"
  shows "map (\<lambda>r. row_get (columns (patch_rma_na_with_pr2 rec nn)) r k d) (rows (patch_rma_na_with_pr2 rec nn))
       = map (\<lambda>r. row_get (columns rec) r k d) (rows rec)"
  using assign_column_keeps_others[OF assms]
  by (simp add: patch_rma_na_with_pr2_def)

lemma patch_columns:
  "filter (\<lambda>k. k \<noteq> ''RMA Number'') (columns (patch_rma_na_with_pr2 rec nn))
     = filter (\<lambda>k. k \<noteq> ''RMA Number'') (columns rec)"
  by (simp add: patch_rma_na_with_pr2_def filter_columns_assign_column)

lemma patch_length_rows: "length (rows (patch_rma_na_with_pr2 rec nn)) = length (rows rec)"
  by (simp add: patch_rma_na_with_pr2_def length_rows_assign_column)

text \<open>
  Claim C9. The fallback patch leaves every table object that existed before the call as
  it was, the two input tables among them: it either returns the reference it was given
  or works on a fresh copy. The table it returns has the rows of the main table in
  number, the other columns in the same order, and every column other than
  \<^verbatim>\<open>RMA Number\<close> holds, row for row, the cells of the main table.
\<close>

theorem patch_rma_na_with_pr2_frame:
  assumes "a < length h" "b < length h" "wf_table (h ! a)"
  shows "case patch_rma_na_with_pr2_store h a b of (out, h') \<Rightarrow>
      (\<forall>i < length h. h' ! i = h ! i)
      \<and> out < length h' \<and> h' ! out = patch_rma_na_with_pr2 (h ! a) (h ! b)
      \<and> length (rows (h' ! out)) = length (rows (h ! a))
      \<and> filter (\<lambda>k. k \<noteq> ''RMA Number'') (columns (h' ! out))
          = filter (\<lambda>k. k \<noteq> ''RMA Number'') (columns (h ! a))
      \<and> (\<forall>k. k \<noteq> ''RMA Number'' \<longrightarrow>
            map (\<lambda>r. row_get (columns (h' ! out)) r k d) (rows (h' ! out))
              = map (\<lambda>r. row_get (columns (h ! a)) r k d) (rows (h ! a)))"
proof (cases "df_empty (h ! a) \<or> df_empty (h ! b)")
  case True
  then have p: "patch_rma_na_with_pr2 (h ! a) (h ! b) = h ! a" by (simp add: patch_rma_na_with_pr2_def)
  from True have "patch_rma_na_with_pr2_store h a b = (a, h)" by (simp add: patch_store_pure)
  then show ?thesis using assms(1) p by simp
next
  case False
  then have s: "patch_rma_na_with_pr2_store h a b = (length h, h @ [patch_rma_na_with_pr2 (h ! a) (h ! b)])"
    by (simp add: patch_store_pure)
  show ?thesis unfolding s prod.case
    using patch_keeps_others[OF wf_table_aligned[OF assms(3)], of _ "h ! b" d]
      patch_columns[of "h ! a" "h ! b"]
      patch_length_rows[of "h ! a" "h ! b"]
    by (simp add: nth_append)
qed

lemma digit_not_space: "isdigit c \<Longrightarrow> \<not> isspace c"
  by (auto simp: isdigit_def isspace_def)

lemma strip_digits: "list_all isdigit s \<Longrightarrow> strip s = s"
proof (cases "s = []")
  case True
  then show ?thesis by (simp add: strip_def)
next
  case False
  assume d: "list_all isdigit s"
  have "\<not> isspace (hd s)" using d False by (cases s) (auto simp: digit_not_space)
  then have a: "dropWhile isspace s = s" by (simp add: dropWhile_eq_self_iff)
  have "\<not> isspace (hd (rev s))" using d False
    by (simp add: hd_rev list_all_iff digit_not_space)
  then have b: "dropWhile isspace (rev s) = rev s" by (simp add: dropWhile_eq_self_iff)
  show ?thesis by (simp only: strip_def a b rev_rev_ident)
qed

lemma strip_strict: "RMA_STRICT_RX_fullmatch s \<Longrightarrow> strip s = s"
  by (simp add: RMA_STRICT_RX_fullmatch_def strip_digits)

lemma strict_not_sentinel: "RMA_STRICT_RX_fullmatch s \<Longrightarrow> s \<noteq> [] \<and> upper s \<noteq> ''N/A''"
proof -
  assume "RMA_STRICT_RX_fullmatch s"
  then have "length s = 8" by (simp add: RMA_STRICT_RX_fullmatch_def)
  then have "s \<noteq> []" "length (upper s) \<noteq> length ''N/A''" by (auto simp: upper_def)
  then show ?thesis by metis
qed

lemma extract_tn_list_falsy: "\<not> truthy det \<Longrightarrow> extract_tn_list det = []"
proof -
  assume "\<not> truthy det"
  then consider "det = PyNone" | "det = Str []" | "det = PyInt 0" | "det = PyBool False"
    using falsy_cells by blast
  then show ?thesis
  proof cases
    case 3
    have "extract_tn_list (PyInt 0) = []" by code_simp
    with 3 show ?thesis by simp
  next
    case 4
    have "extract_tn_list (PyBool False) = []" by code_simp
    with 4 show ?thesis by simp
  qed (simp_all add: extract_tn_list_def UPS_TN_REGEX_findall_def)
qed

text \<open>The inner function \<open>fallback_rma\<close> without its redundant tests.\<close>

lemma fallback_rma_rule:
  "fallback_rma m val det =
     (let s = strip (py_str (or_empty val)) in
      if RMA_STRICT_RX_fullmatch s then s
      else (case extract_tn_list det of
              [] \<Rightarrow> ''N/A''
            | t # _ \<Rightarrow> (case m t of
                          None \<Rightarrow> ''N/A''
                        | Some b \<Rightarrow> if RMA_STRICT_RX_fullmatch b then b else ''N/A'')))"
proof -
  have e: "\<not> RMA_STRICT_RX_fullmatch []" by (simp add: RMA_STRICT_RX_fullmatch_def)
  show ?thesis
    using strict_not_sentinel[of "strip (py_str (or_empty val))"] extract_tn_list_falsy[of det]
    by (auto simp: fallback_rma_def Let_def e split: list.splits option.splits)
qed

lemma find_snoc:
  "find P (xs @ [x]) = (case find P xs of Some y \<Rightarrow> Some y | None \<Rightarrow> if P x then Some x else None)"
  by (induction xs) auto

text \<open>A loop of dictionary stores keeps, for every key, the value of the last store.\<close>

lemma fold_store_last:
  "fold (\<lambda>r m. if key r = [] then m else m(key r \<mapsto> val r)) rs m k =
     (if k = [] then m k
      else (case find (\<lambda>r. key r = k) (rev rs) of
              Some r \<Rightarrow> Some (val r)
            | None \<Rightarrow> m k))"
proof (induction rs arbitrary: m)
  case Nil
  then show ?case by simp
next
  case (Cons r rs)
  show ?case
  proof (cases "k = []")
    case True
    have "fold (\<lambda>r m. if key r = [] then m else m(key r \<mapsto> val r)) rs m' [] = m' []" for m'
      using Cons.IH[of m'] True by simp
    then show ?thesis using True by simp
  next
    case False
    then show ?thesis
      by (cases "find (\<lambda>r. key r = k) (rev rs)") (auto simp: Cons.IH find_snoc)
  qed
qed

lemma tn_to_pr2_last:
  "tn_to_pr2 nn k =
     (if k = [] then None
      else (case find (\<lambda>r. upper (strip (py_str (or_empty (row_get (columns nn) r ''Tracking Number'' (Str []))))) = k)
                (rev (rows nn)) of
        Some r \<Rightarrow> Some (pick_best_rma (RMA_ANY8_IN_TEXT_RX_findall
                    (strip (py_str (or_empty (row_get (columns nn) r ''Package Reference No. 2'' (Str [])))))))
      | None \<Rightarrow> None))"
proof -
  have "tn_to_pr2_step (columns nn) =
     (\<lambda>r m. if upper (strip (py_str (or_empty (row_get (columns nn) r ''Tracking Number'' (Str []))))) = [] then m
             else m(upper (strip (py_str (or_empty (row_get (columns nn) r ''Tracking Number'' (Str [])))))
                  \<mapsto> pick_best_rma (RMA_ANY8_IN_TEXT_RX_findall
                    (strip (py_str (or_empty (row_get (columns nn) r ''Package Reference No. 2'' (Str []))))))))"
    by (intro ext) (simp add: tn_to_pr2_step_def Let_def)
  then show ?thesis unfolding tn_to_pr2_def by (simp only: fold_store_last)
qed

lemma pref6_iff: "RMA_STRICT_RX_fullmatch c \<Longrightarrow> RMA_PREF6_RX_fullmatch c \<longleftrightarrow> startswith c ''6''"
  by (cases c) (auto simp: RMA_STRICT_RX_fullmatch_def RMA_PREF6_RX_fullmatch_def startswith_def)

lemma find_cong_set: "(\<And>x. x \<in> set xs \<Longrightarrow> P x = Q x) \<Longrightarrow> find P xs = find Q xs"
  by (induction xs) auto

lemma pick_first_or:
  "(if ts = [] then [] else case ts of [] \<Rightarrow> [] | first # _ \<Rightarrow> (case find P ts of Some c \<Rightarrow> c | None \<Rightarrow> first))
   = (case find P ts of Some c \<Rightarrow> c | None \<Rightarrow> (case ts of [] \<Rightarrow> [] | c # _ \<Rightarrow> c))"
  by (cases ts) (auto split: option.splits)

lemma pick_best_rma_findall:
  "pick_best_rma (RMA_ANY8_IN_TEXT_RX_findall s) =
     (case find (\<lambda>c. startswith c ''6'') (RMA_ANY8_IN_TEXT_RX_findall s) of
        Some c \<Rightarrow> c
      | None \<Rightarrow> (case RMA_ANY8_IN_TEXT_RX_findall s of [] \<Rightarrow> [] | c # _ \<Rightarrow> c))"
proof -
  let ?ts = "RMA_ANY8_IN_TEXT_RX_findall s"
  have st: "RMA_STRICT_RX_fullmatch (strip c) \<and> RMA_STRICT_RX_fullmatch c" if "c \<in> set ?ts" for c
    using findall_token[OF that] strip_strict[of c] by simp
  then have f: "filter (\<lambda>c. RMA_STRICT_RX_fullmatch (strip c)) ?ts = ?ts" by (simp add: filter_id_conv)
  have g: "find RMA_PREF6_RX_fullmatch ?ts = find (\<lambda>c. startswith c ''6'') ?ts"
    by (rule find_cong_set) (use st pref6_iff in blast)
  show ?thesis unfolding pick_best_rma_def Let_def f g by (rule pick_first_or)
qed

lemma patch_sets_rma:
  assumes "\<not> df_empty rec" "\<not> df_empty nn" "aligned rec"
  shows "map (\<lambda>r. row_get (columns (patch_rma_na_with_pr2 rec nn)) r ''RMA Number'' d)
            (rows (patch_rma_na_with_pr2 rec nn))
       = map (patched_rma (tn_to_pr2 nn) (columns rec)) (rows rec)"
  using assms(1,2) assign_column_sets[OF assms(3)] by (simp add: patch_rma_na_with_pr2_def)

lemma patched_rma_rule:
  "patched_rma m cols r =
     (let s = strip (py_str (or_empty (row_get cols r ''RMA Number'' (Str [])))) in
      if RMA_STRICT_RX_fullmatch s then Str s
      else (case extract_tn_list (row_get cols r ''Tracking Number - Details'' (Str [])) of
              [] \<Rightarrow> Str ''N/A''
            | t # _ \<Rightarrow> (case m t of
                          None \<Rightarrow> Str ''N/A''
                        | Some b \<Rightarrow> if RMA_STRICT_RX_fullmatch b then Str b else Str ''N/A'')))"
  unfolding patched_rma_def fallback_rma_rule
  by (simp add: Let_def split: list.splits option.splits)

lemma patched_rma_keeps_strict:
  assumes "row_get cols r ''RMA Number'' (Str []) = Str s" "RMA_STRICT_RX_fullmatch s"
  shows "patched_rma m cols r = Str s"
proof -
  have "s \<noteq> []" using assms(2) by (auto simp: RMA_STRICT_RX_fullmatch_def)
  then have "strip (py_str (or_empty (Str s))) = s"
    using strip_strict[OF assms(2)] by (simp add: or_empty_def)
  then show ?thesis unfolding patched_rma_rule assms(1) using assms(2) by simp
qed

text \<open>
  Claim C2, as the code has it. With both tables non-empty, the identifier column of the
  patched table holds for every row of the main table the value of the rule: the text of
  the identifier cell is trimmed (\<^verbatim>\<open>None\<close> and the empty text read as empty); if
  that text is exactly eight digits it is the new identifier, so an identifier cell
  that is exactly eight digits is unchanged; otherwise the new identifier is the entry
  of the fallback map for the first tracking number of the details cell when that entry
  is exactly eight digits, and \<^verbatim>\<open>N/A\<close> in every other case. The fallback map gives
  for a non-empty key the best candidate of the secondary reference of the last row of
  the normalized table whose upper-cased, trimmed tracking number is the key; the best
  candidate of a text is its first token that starts with 6, else its first token, else
  the empty text.
\<close>

theorem patch_rma_na_with_pr2_rule:
  "(\<not> df_empty rec \<and> \<not> df_empty nn \<and> wf_table rec \<longrightarrow>
      map (\<lambda>r. row_get (columns (patch_rma_na_with_pr2 rec nn)) r ''RMA Number'' PyNone)
          (rows (patch_rma_na_with_pr2 rec nn))
        = map (patched_rma (tn_to_pr2 nn) (columns rec)) (rows rec))
   \<and> patched_rma m cols r =
       (let s = strip (py_str (or_empty (row_get cols r ''RMA Number'' (Str [])))) in
        if RMA_STRICT_RX_fullmatch s then Str s
        else (case extract_tn_list (row_get cols r ''Tracking Number - Details'' (Str [])) of
                [] \<Rightarrow> Str ''N/A''
              | t # _ \<Rightarrow> (case m t of
                            None \<Rightarrow> Str ''N/A''
                          | Some b \<Rightarrow> if RMA_STRICT_RX_fullmatch b then Str b else Str ''N/A'')))
   \<and> (row_get cols r ''RMA Number'' (Str []) = Str s \<and> RMA_STRICT_RX_fullmatch s
        \<longrightarrow> patched_rma m cols r = Str s)
   \<and> tn_to_pr2 nn k =
       (if k = [] then None
        else (case find (\<lambda>r. upper (strip (py_str (or_empty
                                (row_get (columns nn) r ''Tracking Number'' (Str []))))) = k)
                     (rev (rows nn)) of
                Some r \<Rightarrow> Some (pick_best_rma (RMA_ANY8_IN_TEXT_RX_findall
                           (strip (py_str (or_empty
                              (row_get (columns nn) r ''Package Reference No. 2'' (Str [])))))))
              | None \<Rightarrow> None))
   \<and> pick_best_rma (RMA_ANY8_IN_TEXT_RX_findall t) =
       (case find (\<lambda>c. startswith c ''6'') (RMA_ANY8_IN_TEXT_RX_findall t) of
          Some c \<Rightarrow> c
        | None \<Rightarrow> (case RMA_ANY8_IN_TEXT_RX_findall t of [] \<Rightarrow> [] | c # _ \<Rightarrow> c))"
proof (intro conjI impI; (elim conjE)?)
  assume "\<not> df_empty rec" "\<not> df_empty nn" "wf_table rec"
  then have "\<not> df_empty rec" "\<not> df_empty nn" "aligned rec" by (simp_all add: wf_table_def)
  then show "map (\<lambda>r. row_get (columns (patch_rma_na_with_pr2 rec nn)) r ''RMA Number'' PyNone)
          (rows (patch_rma_na_with_pr2 rec nn))
        = map (patched_rma (tn_to_pr2 nn) (columns rec)) (rows rec)"
    by (rule patch_sets_rma)
next
  show "patched_rma m cols r =
       (let s = strip (py_str (or_empty (row_get cols r ''RMA Number'' (Str [])))) in
        if RMA_STRICT_RX_fullmatch s then Str s
        else (case extract_tn_list (row_get cols r ''Tracking Number - Details'' (Str [])) of
                [] \<Rightarrow> Str ''N/A''
              | t # _ \<Rightarrow> (case m t of
                            None \<Rightarrow> Str ''N/A''
                          | Some b \<Rightarrow> if RMA_STRICT_RX_fullmatch b then Str b else Str ''N/A'')))"
    by (rule patched_rma_rule)
next
  assume "row_get cols r ''RMA Number'' (Str []) = Str s" "RMA_STRICT_RX_fullmatch s"
  then show "patched_rma m cols r = Str s" by (rule patched_rma_keeps_strict)
next
  show "tn_to_pr2 nn k =
       (if k = [] then None
        else (case find (\<lambda>r. upper (strip (py_str (or_empty
                                (row_get (columns nn) r ''Tracking Number'' (Str []))))) = k)
                     (rev (rows nn)) of
                Some r \<Rightarrow> Some (pick_best_rma (RMA_ANY8_IN_TEXT_RX_findall
                           (strip (py_str (or_empty
                              (row_get (columns nn) r ''Package Reference No. 2'' (Str [])))))))
              | None \<Rightarrow> None))"
    by (rule tn_to_pr2_last)
next
  show "pick_best_rma (RMA_ANY8_IN_TEXT_RX_findall t) =
       (case find (\<lambda>c. startswith c ''6'') (RMA_ANY8_IN_TEXT_RX_findall t) of
          Some c \<Rightarrow> c
        | None \<Rightarrow> (case RMA_ANY8_IN_TEXT_RX_findall t of [] \<Rightarrow> [] | c # _ \<Rightarrow> c))"
    by (rule pick_best_rma_findall)
qed

theorem patch_rma_na_with_pr2_rule_witness:
  "\<not> df_empty \<lparr>columns = [''RMA Number'', ''Tracking Number - Details''],
                rows = [[Str ''N/A'', Str ''1Z1234567890ABCDEF late''], [Str ''61234567'', Str []]]\<rparr>
   \<and> \<not> df_empty \<lparr>columns = [''Tracking Number'', ''Package Reference No. 2''],
                rows = [[Str ''1z1234567890abcdef'', Str ''PR2: 91234567''],
                        [Str ''1Z1234567890ABCDEF'', Str ''PR2: 90011223 60011223 misc'']]\<rparr>
   \<and> wf_table \<lparr>columns = [''RMA Number'', ''Tracking Number - Details''],
                rows = [[Str ''N/A'', Str ''1Z1234567890ABCDEF late''], [Str ''61234567'', Str []]]\<rparr>
   \<and> map (\<lambda>r. row_get (columns (patch_rma_na_with_pr2
            \<lparr>columns = [''RMA Number'', ''Tracking Number - Details''],
                rows = [[Str ''N/A'', Str ''1Z1234567890ABCDEF late''], [Str ''61234567'', Str []]]\<rparr>
            \<lparr>columns = [''Tracking Number'', ''Package Reference No. 2''],
                rows = [[Str ''1z1234567890abcdef'', Str ''PR2: 91234567''],
                        [Str ''1Z1234567890ABCDEF'', Str ''PR2: 90011223 60011223 misc'']]\<rparr>)) r ''RMA Number'' PyNone)
          (rows (patch_rma_na_with_pr2
            \<lparr>columns = [''RMA Number'', ''Tracking Number - Details''],
                rows = [[Str ''N/A'', Str ''1Z1234567890ABCDEF late''], [Str ''61234567'', Str []]]\<rparr>
            \<lparr>columns = [''Tracking Number'', ''Package Reference No. 2''],
                rows = [[Str ''1z1234567890abcdef'', Str ''PR2: 91234567''],
                        [Str ''1Z1234567890ABCDEF'', Str ''PR2: 90011223 60011223 misc'']]\<rparr>))
      = [Str ''60011223'', Str ''61234567'']
   \<and> row_get [''RMA Number''] [Str ''61234567''] ''RMA Number'' (Str []) = Str ''61234567''
   \<and> RMA_STRICT_RX_fullmatch ''61234567''
   \<and> patched_rma Map.empty [''RMA Number''] [Str ''61234567''] = Str ''61234567''"
proof -
  let ?rec = "\<lparr>columns = [''RMA Number'', ''Tracking Number - Details''],
                rows = [[Str ''N/A'', Str ''1Z1234567890ABCDEF late''], [Str ''61234567'', Str []]]\<rparr>"
  let ?nn = "\<lparr>columns = [''Tracking Number'', ''Package Reference No. 2''],
                rows = [[Str ''1z1234567890abcdef'', Str ''PR2: 91234567''],
                        [Str ''1Z1234567890ABCDEF'', Str ''PR2: 90011223 60011223 misc'']]\<rparr>"
  have a: "\<not> df_empty ?rec" by code_simp
  have b: "\<not> df_empty ?nn" by code_simp
  have c: "wf_table ?rec" by code_simp
  have e: "map (patched_rma (tn_to_pr2 ?nn) (columns ?rec)) (rows ?rec) = [Str ''60011223'', Str ''61234567'']"
    by code_simp
  have "map (\<lambda>r. row_get (columns (patch_rma_na_with_pr2 ?rec ?nn)) r ''RMA Number'' PyNone)
          (rows (patch_rma_na_with_pr2 ?rec ?nn)) = [Str ''60011223'', Str ''61234567'']"
    using patch_rma_na_with_pr2_rule[of ?rec ?nn, THEN conjunct1, THEN mp, OF conjI[OF a conjI[OF b c]]] e
    by (rule trans)
  note 1 = this
  have x: "row_get [''RMA Number''] [Str ''61234567''] ''RMA Number'' (Str []) = Str ''61234567''"
    by code_simp
  have y: "RMA_STRICT_RX_fullmatch ''61234567''" by code_simp
  have 2: "patched_rma Map.empty [''RMA Number''] [Str ''61234567''] = Str ''61234567''"
    by (rule patch_rma_na_with_pr2_rule[where m = Map.empty and cols = "[''RMA Number'']"
          and r = "[Str ''61234567'']" and s = "''61234567''",
          THEN conjunct2, THEN conjunct2, THEN conjunct1, THEN mp, OF conjI[OF x y]])
  from a b c 1 x y 2 show ?thesis by (intro conjI)
qed

text \<open>
  The claim C2 as it is worded fails on an identifier with white space around it: the
  cell \<^verbatim>\<open>" 61234567"\<close> is not a match of \<^verbatim>\<open>^\d{8}$\<close> and the row has no tracking
  number, so the claim makes the identifier \<^verbatim>\<open>N/A\<close>; the code tests the trimmed text
  and stores \<^verbatim>\<open>61234567\<close>.
\<close>

theorem patch_rma_na_with_pr2_trims_counterexample:
  "\<not> df_empty \<lparr>columns = [''RMA Number'', ''Tracking Number - Details''], rows = [[Str '' 61234567'', Str []]]\<rparr>
   \<and> \<not> df_empty \<lparr>columns = [''Tracking Number''], rows = [[Str ''1Z1234567890ABCDEF'']]\<rparr>
   \<and> \<not> RMA_STRICT_RX_fullmatch '' 61234567''
   \<and> extract_tn_list (Str []) = []
   \<and> rows (patch_rma_na_with_pr2
        \<lparr>columns = [''RMA Number'', ''Tracking Number - Details''], rows = [[Str '' 61234567'', Str []]]\<rparr>
        \<lparr>columns = [''Tracking Number''], rows = [[Str ''1Z1234567890ABCDEF'']]\<rparr>)
      = [[Str ''61234567'', Str []]]"
  by code_simp

theorem patch_rma_na_with_pr2_frame_witness:
  "(0::nat) < length [\<lparr>columns = [''RMA Number'', ''Tracking Number - Details''],
                rows = [[Str ''N/A'', Str ''1Z1234567890ABCDEF late'']]\<rparr>,
              \<lparr>columns = [''Tracking Number'', ''Package Reference No. 2''],
                rows = [[Str ''1Z1234567890ABCDEF'', Str ''PR2: 60011223 misc'']]\<rparr>]
   \<and> patch_rma_na_with_pr2_store
         [\<lparr>columns = [''RMA Number'', ''Tracking Number - Details''],
                rows = [[Str ''N/A'', Str ''1Z1234567890ABCDEF late'']]\<rparr>,
          \<lparr>columns = [''Tracking Number'', ''Package Reference No. 2''],
                rows = [[Str ''1Z1234567890ABCDEF'', Str ''PR2: 60011223 misc'']]\<rparr>] 0 1
       = (2, [\<lparr>columns = [''RMA Number'', ''Tracking Number - Details''],
                rows = [[Str ''N/A'', Str ''1Z1234567890ABCDEF late'']]\<rparr>,
              \<lparr>columns = [''Tracking Number'', ''Package Reference No. 2''],
                rows = [[Str ''1Z1234567890ABCDEF'', Str ''PR2: 60011223 misc'']]\<rparr>,
              \<lparr>columns = [''RMA Number'', ''Tracking Number - Details''],
                rows = [[Str ''60011223'', Str ''1Z1234567890ABCDEF late'']]\<rparr>])
   \<and> (case patch_rma_na_with_pr2_store
         [\<lparr>columns = [''RMA Number'', ''Tracking Number - Details''],
                rows = [[Str ''N/A'', Str ''1Z1234567890ABCDEF late'']]\<rparr>,
          \<lparr>columns = [''Tracking Number'', ''Package Reference No. 2''],
                rows = [[Str ''1Z1234567890ABCDEF'', Str ''PR2: 60011223 misc'']]\<rparr>] 0 1 of
        (out, h') \<Rightarrow>
          (\<forall>i < 2. h' ! i = [\<lparr>columns = [''RMA Number'', ''Tracking Number - Details''],
                rows = [[Str ''N/A'', Str ''1Z1234567890ABCDEF late'']]\<rparr>,
              \<lparr>columns = [''Tracking Number'', ''Package Reference No. 2''],
                rows = [[Str ''1Z1234567890ABCDEF'', Str ''PR2: 60011223 misc'']]\<rparr>] ! i)
          \<and> map (\<lambda>r. row_get (columns (h' ! out)) r ''Tracking Number - Details'' PyNone) (rows (h' ! out))
              = [Str ''1Z1234567890ABCDEF late''])"
proof -
  let ?rec = "\<lparr>columns = [''RMA Number'', ''Tracking Number - Details''],
                rows = [[Str ''N/A'', Str ''1Z1234567890ABCDEF late'']]\<rparr>"
  let ?nn = "\<lparr>columns = [''Tracking Number'', ''Package Reference No. 2''],
                rows = [[Str ''1Z1234567890ABCDEF'', Str ''PR2: 60011223 misc'']]\<rparr>"
  let ?h = "[?rec, ?nn]"
  have a: "(0::nat) < length ?h" by simp
  have b: "(1::nat) < length ?h" by simp
  have c: "wf_table (?h ! 0)" by code_simp
  have e: "patch_rma_na_with_pr2_store ?h 0 1 = (2, [?rec, ?nn, \<lparr>columns = [''RMA Number'', ''Tracking Number - Details''],
                rows = [[Str ''60011223'', Str ''1Z1234567890ABCDEF late'']]\<rparr>])"
    by code_simp
  have f: "map (\<lambda>r. row_get (columns (?h ! 0)) r ''Tracking Number - Details'' PyNone) (rows (?h ! 0))
              = [Str ''1Z1234567890ABCDEF late'']" by code_simp
  have g: "''Tracking Number - Details'' \<noteq> ''RMA Number''" by simp
  from patch_rma_na_with_pr2_frame[OF a b c, of PyNone] f g
  have "case patch_rma_na_with_pr2_store ?h 0 1 of
        (out, h') \<Rightarrow>
          (\<forall>i < 2. h' ! i = ?h ! i)
          \<and> map (\<lambda>r. row_get (columns (h' ! out)) r ''Tracking Number - Details'' PyNone) (rows (h' ! out))
              = [Str ''1Z1234567890ABCDEF late'']"
    by (auto split: prod.splits)
  with a e show ?thesis by (intro conjI)
qed

section \<open>The final table\<close>

lemma length_drop_row:
  "length r = length cols \<Longrightarrow>
   length (filter (\<lambda>(k, v). k \<noteq> c) (zip cols r)) = length (filter (\<lambda>k. k \<noteq> c) cols)"
proof (induction cols arbitrary: r)
  case Nil
  then show ?case by simp
next
  case (Cons a cols)
  then obtain v vs where "r = v # vs" by (cases r) auto
  with Cons show ?case by simp
qed

lemma aligned_drop_column: "aligned df \<Longrightarrow> aligned (drop_column c df)"
  by (auto simp: aligned_def list_all_iff drop_column_def length_drop_row)

lemma row_lookup_drop:
  "k \<noteq> c \<Longrightarrow>
   row_lookup (filter (\<lambda>k. k \<noteq> c) cols) (map snd (filter (\<lambda>(k, v). k \<noteq> c) (zip cols r))) k
     = row_lookup cols r k"
proof (induction cols arbitrary: r)
  case Nil
  then show ?case by simp
next
  case (Cons a cols)
  then show ?case by (cases r) auto
qed

lemma drop_column_keeps:
  "k \<noteq> c \<Longrightarrow>
   map (\<lambda>r. row_get (columns (drop_column c df)) r k d) (rows (drop_column c df))
     = map (\<lambda>r. row_get (columns df) r k d) (rows df)"
  by (simp add: drop_column_def row_get_def row_lookup_drop comp_def)

lemma filter_absent: "c \<notin> set xs \<Longrightarrow> filter (\<lambda>k. k \<noteq> c) xs = xs"
  by (induction xs) auto

lemma columns_drop_if_present: "columns (drop_if_present c df) = filter (\<lambda>k. k \<noteq> c) (columns df)"
  by (simp add: drop_if_present_def drop_column_def filter_absent)

lemma aligned_drop_if_present: "aligned df \<Longrightarrow> aligned (drop_if_present c df)"
  by (simp add: drop_if_present_def aligned_drop_column)

lemma drop_if_present_keeps:
  "k \<noteq> c \<Longrightarrow>
   map (\<lambda>r. row_get (columns (drop_if_present c df)) r k d) (rows (drop_if_present c df))
     = map (\<lambda>r. row_get (columns df) r k d) (rows df)"
  by (simp add: drop_if_present_def drop_column_keeps)

lemma length_rows_drop_if_present: "length (rows (drop_if_present c df)) = length (rows df)"
  by (simp add: drop_if_present_def drop_column_def)

lemma set_columns_fold_drop:
  "set (columns (fold drop_if_present cs df)) = set (columns df) - set cs"
  by (induction cs arbitrary: df) (auto simp: columns_drop_if_present)

lemma aligned_fold_drop: "aligned df \<Longrightarrow> aligned (fold drop_if_present cs df)"
  by (induction cs arbitrary: df) (simp_all add: aligned_drop_if_present)

lemma length_rows_fold_drop: "length (rows (fold drop_if_present cs df)) = length (rows df)"
  by (induction cs arbitrary: df) (simp_all add: length_rows_drop_if_present)

lemma fold_drop_keeps:
  "k \<notin> set cs \<Longrightarrow>
   map (\<lambda>r. row_get (columns (fold drop_if_present cs df)) r k d) (rows (fold drop_if_present cs df))
     = map (\<lambda>r. row_get (columns df) r k d) (rows df)"
  by (induction cs arbitrary: df) (simp_all add: drop_if_present_keeps)

lemma columns_normalize: "columns (normalize_rma_column_inplace df) = columns df"
  by (simp add: normalize_rma_column_inplace_def columns_assign_column)

lemma aligned_normalize: "aligned df \<Longrightarrow> aligned (normalize_rma_column_inplace df)"
  by (simp add: normalize_rma_column_inplace_def aligned_assign_column)

lemma normalize_sets_rma:
  assumes "aligned df" "''RMA Number'' \<in> set (columns df)"
  shows "map (\<lambda>r. row_get (columns (normalize_rma_column_inplace df)) r ''RMA Number'' d)
             (rows (normalize_rma_column_inplace df))
       = map (\<lambda>r. Str (clean_rma_string (row_get (columns df) r ''RMA Number'' PyNone))) (rows df)"
  using assms(2) assign_column_sets[OF assms(1)] by (simp add: normalize_rma_column_inplace_def)

lemma normalize_keeps_others:
  assumes "aligned df" "k \<noteq> ''RMA Number''"
  shows "map (\<lambda>r. row_get (columns (normalize_rma_column_inplace df)) r k d)
             (rows (normalize_rma_column_inplace df))
       = map (\<lambda>r. row_get (columns df) r k d) (rows df)"
  using assign_column_keeps_others[OF assms] by (simp add: normalize_rma_column_inplace_def)

lemma aligned_filter_rows: "aligned df \<Longrightarrow> aligned (filter_rows p df)"
  by (simp add: aligned_def filter_rows_def list_all_iff)

lemma row_get_project:
  "distinct cs \<Longrightarrow> c \<in> set cs \<Longrightarrow> row_get cs (map f cs) c d = f c"
  by (induction cs) (auto simp: row_get_def)

lemma select_after_ensure:
  "select_columns cs (fold ensure_column cs df) =
     Inr \<lparr>columns = cs,
          rows = map (\<lambda>r. map (\<lambda>c. row_get (columns (fold ensure_column cs df)) r c PyNone) cs)
                   (rows (fold ensure_column cs df))\<rparr>"
proof -
  have "filter (\<lambda>c. c \<notin> set (columns (fold ensure_column cs df))) cs = []"
    by (simp add: set_columns_fold_ensure filter_empty_conv)
  then show ?thesis by (simp add: select_columns_def)
qed

lemma aligned_fold_ensure: "aligned df \<Longrightarrow> aligned (fold ensure_column cs df)"
  by (induction cs arbitrary: df) (simp_all add: aligned_ensure_column)

lemma length_rows_fold_ensure: "length (rows (fold ensure_column cs df)) = length (rows df)"
  by (induction cs arbitrary: df) (simp_all add: rows_ensure_column)

lemma map_eq_imp_ex:
  assumes "map f xs = map g ys" "x \<in> set xs"
  shows "\<exists>y \<in> set ys. f x = g y"
proof -
  have "f x \<in> set (map f xs)" using assms(2) by simp
  then have "f x \<in> set (map g ys)" using assms(1) by simp
  then show ?thesis by auto
qed

lemma aligned_patch: "aligned rec \<Longrightarrow> aligned (patch_rma_na_with_pr2 rec nn)"
  by (simp add: patch_rma_na_with_pr2_def aligned_assign_column)

lemma set_columns_patch:
  "set (columns (patch_rma_na_with_pr2 rec nn)) \<subseteq> insert ''RMA Number'' (set (columns rec))"
  by (auto simp: patch_rma_na_with_pr2_def columns_assign_column)

text \<open>The value a row of the normalized table puts on the block list is on the block list.\<close>

lemma blocked_member:
  "b \<in> set (blocked nn) \<longleftrightarrow> (\<exists>r \<in> set (rows nn). blocks (columns nn) r = Some b)"
  by (force simp: blocked_def List.map_filter_def)

lemma build_final_stages:
  assumes ok: "build_final_output_df rec nn = Inr out" and al: "aligned rec"
  obtains df5 where
    "aligned df5" "''RMA Number'' \<in> set (columns df5)"
    "set (columns df5) \<subseteq> insert ''RMA Number'' (set (columns rec))"
    "\<forall>r \<in> set (rows df5). \<exists>s. row_get (columns df5) r ''RMA Number'' PyNone = Str s
         \<and> RMA_STRICT_RX_fullmatch s \<and> s \<notin> set (blocked nn)"
    "out = \<lparr>columns = FINAL_COLS,
            rows = map (\<lambda>r. map (\<lambda>c. row_get (columns (fold ensure_column FINAL_COLS df5)) r c PyNone) FINAL_COLS)
                     (rows (fold ensure_column FINAL_COLS df5))\<rparr>"
proof -
  define df2 where "df2 = fold drop_if_present [''Tracking Number'', ''Ship To Location'', ''Original RMA'']
                            (patch_rma_na_with_pr2 rec nn)"
  define df3 where "df3 = normalize_rma_column_inplace df2"
  define df4 where "df4 = filter_rows (rma_is_8_digits (columns df3)) df3"
  define df5 where "df5 = (if blocked nn \<noteq> [] then filter_rows (rma_not_blocked (blocked nn) (columns df4)) df4
                           else df4)"
  have unf: "build_final_output_df rec nn =
      (if ''RMA Number'' \<notin> set (columns df3) then Inl (KeyError ''RMA Number'')
       else select_columns FINAL_COLS (fold ensure_column FINAL_COLS df5))"
    by (simp add: build_final_output_df_def Let_def df2_def df3_def df4_def df5_def)
  have rma3: "''RMA Number'' \<in> set (columns df3)" using ok unf by (auto split: if_splits)
  have al2: "aligned df2" unfolding df2_def by (intro aligned_fold_drop aligned_patch al)
  have al3: "aligned df3" unfolding df3_def by (rule aligned_normalize[OF al2])
  have c43: "columns df4 = columns df3" by (simp add: df4_def filter_rows_def)
  have c54: "columns df5 = columns df4" by (simp add: df5_def filter_rows_def)
  have r43: "set (rows df4) = {r \<in> set (rows df3). rma_is_8_digits (columns df3) r}"
    by (auto simp: df4_def filter_rows_def)
  have r54: "set (rows df5) \<subseteq> set (rows df4)" by (auto simp: df5_def filter_rows_def)
  have nb: "rma_not_blocked (blocked nn) (columns df3) r" if "r \<in> set (rows df5)" "blocked nn \<noteq> []" for r
    using that by (auto simp: df5_def filter_rows_def c43)
  have al5: "aligned df5"
    unfolding df5_def df4_def by (auto intro: aligned_filter_rows al3)
  have rma2: "''RMA Number'' \<in> set (columns df2)" using rma3 by (simp add: df3_def columns_normalize)
  have cells3: "\<exists>s. row_get (columns df3) r ''RMA Number'' PyNone = Str s" if "r \<in> set (rows df3)" for r
    using map_eq_imp_ex[OF normalize_sets_rma[OF al2 rma2, of PyNone] that[unfolded df3_def]]
    by (auto simp: df3_def)
  have cells5: "\<exists>s. row_get (columns df5) r ''RMA Number'' PyNone = Str s
         \<and> RMA_STRICT_RX_fullmatch s \<and> s \<notin> set (blocked nn)" if r: "r \<in> set (rows df5)" for r
  proof -
    have r3: "r \<in> set (rows df3)" and d8: "rma_is_8_digits (columns df3) r"
      using r r54 r43 by auto
    from cells3[OF r3] obtain s where s: "row_get (columns df3) r ''RMA Number'' PyNone = Str s" by blast
    have st: "RMA_STRICT_RX_fullmatch s" using d8 s by (simp add: rma_is_8_digits_def)
    have "s \<notin> set (blocked nn)"
    proof (cases "blocked nn = []")
      case True
      then show ?thesis by simp
    next
      case False
      from nb[OF r False] s show ?thesis by (simp add: rma_not_blocked_def)
    qed
    with s st show ?thesis by (simp add: c54 c43)
  qed
  have "set (columns df2) \<subseteq> set (columns (patch_rma_na_with_pr2 rec nn))"
    unfolding df2_def set_columns_fold_drop by blast
  then have sub: "set (columns df5) \<subseteq> insert ''RMA Number'' (set (columns rec))"
    using set_columns_patch[of rec nn]
    by (simp add: c54 c43 df3_def columns_normalize)
  have out: "out = \<lparr>columns = FINAL_COLS,
            rows = map (\<lambda>r. map (\<lambda>c. row_get (columns (fold ensure_column FINAL_COLS df5)) r c PyNone) FINAL_COLS)
                     (rows (fold ensure_column FINAL_COLS df5))\<rparr>"
    using ok unf rma3 by (simp add: select_after_ensure)
  show thesis
    by (rule that[OF al5 _ sub _ out]) (use rma3 c54 c43 cells5 in auto)
qed

lemma distinct_FINAL_COLS: "distinct FINAL_COLS"
  by (simp add: FINAL_COLS_def)

lemma rma_in_FINAL_COLS: "''RMA Number'' \<in> set FINAL_COLS"
  by (simp add: FINAL_COLS_def)

text \<open>The identifier of every row of the final table is the identifier of a kept row.\<close>

lemma final_row_rma:
  assumes ok: "build_final_output_df rec nn = Inr out" and al: "aligned rec"
    and row: "row \<in> set (rows out)"
  shows "\<exists>s. row_get FINAL_COLS row ''RMA Number'' PyNone = Str s
         \<and> RMA_STRICT_RX_fullmatch s \<and> s \<notin> set (blocked nn)"
proof -
  from build_final_stages[OF ok al] obtain df5 where
    al5: "aligned df5" and rma: "''RMA Number'' \<in> set (columns df5)"
    and cells: "\<forall>r \<in> set (rows df5). \<exists>s. row_get (columns df5) r ''RMA Number'' PyNone = Str s
         \<and> RMA_STRICT_RX_fullmatch s \<and> s \<notin> set (blocked nn)"
    and out: "out = \<lparr>columns = FINAL_COLS,
            rows = map (\<lambda>r. map (\<lambda>c. row_get (columns (fold ensure_column FINAL_COLS df5)) r c PyNone) FINAL_COLS)
                     (rows (fold ensure_column FINAL_COLS df5))\<rparr>"
    by blast
  let ?df6 = "fold ensure_column FINAL_COLS df5"
  from row out obtain r6 where r6: "r6 \<in> set (rows ?df6)"
    and rw: "row = map (\<lambda>c. row_get (columns ?df6) r6 c PyNone) FINAL_COLS" by auto
  have "row_get FINAL_COLS row ''RMA Number'' PyNone = row_get (columns ?df6) r6 ''RMA Number'' PyNone"
    unfolding rw by (rule row_get_project[OF distinct_FINAL_COLS rma_in_FINAL_COLS])
  moreover from map_eq_imp_ex[OF fold_ensure_keeps[OF al5 rma, of FINAL_COLS PyNone] r6]
  obtain r5 where "r5 \<in> set (rows df5)"
    and "row_get (columns ?df6) r6 ''RMA Number'' PyNone = row_get (columns df5) r5 ''RMA Number'' PyNone"
    by blast
  ultimately show ?thesis using cells by auto
qed

lemma contains_Nil: "p \<noteq> [] \<Longrightarrow> \<not> contains [] p"
  by simp

lemma blocks_Some:
  assumes "contains (upper (strip (py_str (or_empty (row_get cols r ''Original RMA'' (Str [])))))) ''CONS PICK UP''"
    and "RMA_STRICT_RX_fullmatch (strip (py_str (or_empty (row_get cols r ''RMA Number'' (Str [])))))"
  shows "blocks cols r = Some (strip (py_str (or_empty (row_get cols r ''RMA Number'' (Str [])))))"
proof -
  have "upper (strip (py_str (or_empty (row_get cols r ''Original RMA'' (Str []))))) \<noteq> []"
    using assms(1) by (cases "upper (strip (py_str (or_empty (row_get cols r ''Original RMA'' (Str [])))))") auto
  then have "strip (py_str (or_empty (row_get cols r ''Original RMA'' (Str [])))) \<noteq> []"
    by (simp add: upper_def)
  with assms show ?thesis by (simp add: blocks_def Let_def)
qed

text \<open>
  Claim C3. When \<^verbatim>\<open>build_final_output_df\<close> returns a table, no row of it carries a blocked
  identifier: for every row of the normalized table whose original text, upper-cased,
  contains \<^verbatim>\<open>CONS PICK UP\<close> and whose identifier is exactly eight digits, that
  identifier is the \<^verbatim>\<open>RMA Number\<close> of no row of the final table, whatever other
  rows of the normalized table carry the same identifier.
\<close>

theorem blocked_identifiers_excluded:
  assumes "build_final_output_df rec nn = Inr out" "wf_table rec" "wf_table nn"
  shows "(\<forall>row \<in> set (rows out). \<forall>r \<in> set (rows nn).
           contains (upper (strip (py_str (or_empty (row_get (columns nn) r ''Original RMA'' (Str []))))))
             ''CONS PICK UP''
           \<and> RMA_STRICT_RX_fullmatch
               (strip (py_str (or_empty (row_get (columns nn) r ''RMA Number'' (Str [])))))
           \<longrightarrow> row_get FINAL_COLS row ''RMA Number'' PyNone
                 \<noteq> Str (strip (py_str (or_empty (row_get (columns nn) r ''RMA Number'' (Str []))))))
       \<and> (\<forall>row \<in> set (rows out). \<forall>b \<in> set (blocked nn).
            row_get FINAL_COLS row ''RMA Number'' PyNone \<noteq> Str b)"
proof -
  have B: "row_get FINAL_COLS row ''RMA Number'' PyNone \<noteq> Str b"
    if "row \<in> set (rows out)" "b \<in> set (blocked nn)" for row b
    using final_row_rma[OF assms(1) wf_table_aligned[OF assms(2)] that(1)] that(2) by auto
  have A: "row_get FINAL_COLS row ''RMA Number'' PyNone
                 \<noteq> Str (strip (py_str (or_empty (row_get (columns nn) r ''RMA Number'' (Str [])))))"
    if "row \<in> set (rows out)" "r \<in> set (rows nn)"
      "contains (upper (strip (py_str (or_empty (row_get (columns nn) r ''Original RMA'' (Str []))))))
             ''CONS PICK UP''"
      "RMA_STRICT_RX_fullmatch
               (strip (py_str (or_empty (row_get (columns nn) r ''RMA Number'' (Str [])))))"
    for row r
  proof -
    have "strip (py_str (or_empty (row_get (columns nn) r ''RMA Number'' (Str [])))) \<in> set (blocked nn)"
      unfolding blocked_member using blocks_Some[OF that(3,4)] that(2) by blast
    then show ?thesis by (rule B[OF that(1)])
  qed
  show ?thesis using A B by blast
qed

lemma length_FINAL_COLS: "length FINAL_COLS = 11"
  by (simp add: FINAL_COLS_def)

text \<open>
  Claim C6, as the code has it. When \<^verbatim>\<open>build_final_output_df\<close> returns a table, its
  columns are the eleven of \<^verbatim>\<open>FINAL_COLS\<close>, every row has eleven cells, and the
  \<^verbatim>\<open>RMA Number\<close> of every row is a non-empty text of exactly eight digits. A column of
  \<^verbatim>\<open>FINAL_COLS\<close> that the main table does not have is filled with the empty text.
\<close>

theorem final_table_columns_complete:
  assumes "build_final_output_df rec nn = Inr out" "wf_table rec"
  shows "columns out = FINAL_COLS \<and> length FINAL_COLS = 11
     \<and> (\<forall>row \<in> set (rows out).
           length row = 11
         \<and> (\<exists>s. row_get FINAL_COLS row ''RMA Number'' PyNone = Str s
                \<and> RMA_STRICT_RX_fullmatch s \<and> s \<noteq> [])
         \<and> (\<forall>c \<in> set FINAL_COLS. c \<noteq> ''RMA Number'' \<and> c \<notin> set (columns rec)
                \<longrightarrow> row_get FINAL_COLS row c PyNone = Str []))"
proof -
  note al = wf_table_aligned[OF assms(2)]
  from build_final_stages[OF assms(1) al] obtain df5 where
    al5: "aligned df5"
    and sub: "set (columns df5) \<subseteq> insert ''RMA Number'' (set (columns rec))"
    and out: "out = \<lparr>columns = FINAL_COLS,
            rows = map (\<lambda>r. map (\<lambda>c. row_get (columns (fold ensure_column FINAL_COLS df5)) r c PyNone) FINAL_COLS)
                     (rows (fold ensure_column FINAL_COLS df5))\<rparr>"
    by blast
  let ?df6 = "fold ensure_column FINAL_COLS df5"
  have cols: "columns out = FINAL_COLS" using out by simp
  have P: "length row = 11
         \<and> (\<exists>s. row_get FINAL_COLS row ''RMA Number'' PyNone = Str s
                \<and> RMA_STRICT_RX_fullmatch s \<and> s \<noteq> [])
         \<and> (\<forall>c \<in> set FINAL_COLS. c \<noteq> ''RMA Number'' \<and> c \<notin> set (columns rec)
                \<longrightarrow> row_get FINAL_COLS row c PyNone = Str [])"
    if row: "row \<in> set (rows out)" for row
  proof -
    from row out obtain r6 where r6: "r6 \<in> set (rows ?df6)"
      and rw: "row = map (\<lambda>c. row_get (columns ?df6) r6 c PyNone) FINAL_COLS" by auto
    have l: "length row = 11" unfolding rw by (simp add: length_FINAL_COLS)
    from final_row_rma[OF assms(1) al row] obtain s where
      s: "row_get FINAL_COLS row ''RMA Number'' PyNone = Str s" "RMA_STRICT_RX_fullmatch s" by blast
    have sn: "s \<noteq> []" using s(2) by (auto simp: RMA_STRICT_RX_fullmatch_def)
    have m: "row_get FINAL_COLS row c PyNone = Str []"
      if c: "c \<in> set FINAL_COLS" "c \<noteq> ''RMA Number''" "c \<notin> set (columns rec)" for c
    proof -
      have "c \<notin> set (columns df5)" using sub c(2,3) by auto
      from fold_ensure_new_blank[OF al5 c(1) this, of PyNone] r6
      have "row_get (columns ?df6) r6 c PyNone = Str []" by blast
      then show ?thesis unfolding rw by (simp add: row_get_project[OF distinct_FINAL_COLS c(1)])
    qed
    from l s sn m show ?thesis by blast
  qed
  from cols length_FINAL_COLS P show ?thesis by blast
qed

lemma record_tn_blank_cells:
  assumes "row_get cols r ''Tracking Number'' (Str []) = Str []"
    and "row_get cols r ''Tracking Number - Details'' (Str []) = Str []"
  shows "record_rows cols r = []"
proof -
  have "record_tn cols r = None"
    unfolding record_tn_None_iff assms
    by (simp add: or_empty_def strip_Nil extract_tn_list_def UPS_TN_REGEX_findall_def)
  then show ?thesis by (simp add: record_rows_def)
qed

lemma normalize_no_rows:
  "normalize_rma_column_inplace \<lparr>columns = NORM_COLS, rows = []\<rparr> = \<lparr>columns = NORM_COLS, rows = []\<rparr>"
  by (simp add: normalize_rma_column_inplace_def assign_column_def)

lemma build_new_norm_empty:
  assumes "df_empty df" "aligned df"
  shows "build_new_norm df = \<lparr>columns = NORM_COLS, rows = []\<rparr>"
proof -
  let ?h = "map_new_columns df"
  have "record_rows (columns ?h) r = []" if r: "r \<in> set (rows ?h)" for r
  proof (cases "rows df = []")
    case True
    then have "rows ?h = []"
      using length_rows_fold_ensure[of "map snd mapping" "df\<lparr>columns := map cols_new (columns df)\<rparr>"]
      by (simp add: map_new_columns_def)
    with r show ?thesis by simp
  next
    case False
    then have c: "columns df = []" using assms(1) by (simp add: df_empty_def)
    have tn: "''Tracking Number'' \<in> set (map snd mapping)"
      and det: "''Tracking Number - Details'' \<in> set (map snd mapping)" by (simp_all add: mapping_def)
    have "row_get (columns ?h) r ''Tracking Number'' (Str []) = Str []"
      using canonical_absent_blank[OF assms(2) tn, of "Str []"] r by (simp add: c)
    moreover have "row_get (columns ?h) r ''Tracking Number - Details'' (Str []) = Str []"
      using canonical_absent_blank[OF assms(2) det, of "Str []"] r by (simp add: c)
    ultimately show ?thesis by (rule record_tn_blank_cells)
  qed
  then have e: "concat (map (record_rows (columns ?h)) (rows ?h)) = []" by simp
  show ?thesis by (simp only: build_new_norm_def Let_def e normalize_no_rows)
qed

lemma build_final_no_rows:
  assumes "rows rec = []" "''RMA Number'' \<in> set (columns rec)"
  shows "build_final_output_df rec nn = Inr \<lparr>columns = FINAL_COLS, rows = []\<rparr>"
proof -
  define bl where "bl = blocked nn"
  define df3 where "df3 = normalize_rma_column_inplace (fold drop_if_present
       [''Tracking Number'', ''Ship To Location'', ''Original RMA''] rec)"
  define df5 where "df5 = (let d = filter_rows (rma_is_8_digits (columns df3)) df3 in
       if bl \<noteq> [] then filter_rows (rma_not_blocked bl (columns d)) d else d)"
  have p: "patch_rma_na_with_pr2 rec nn = rec"
    using assms(1) by (simp add: patch_rma_na_with_pr2_def df_empty_def)
  have r3: "rows df3 = []"
    using length_rows_normalize[of "fold drop_if_present
       [''Tracking Number'', ''Ship To Location'', ''Original RMA''] rec"]
      length_rows_fold_drop[of "[''Tracking Number'', ''Ship To Location'', ''Original RMA'']" rec] assms(1)
    unfolding df3_def by simp
  have c3: "''RMA Number'' \<in> set (columns df3)"
    using assms(2) unfolding df3_def columns_normalize set_columns_fold_drop by simp
  have r5: "rows df5 = []" using r3 by (simp add: df5_def Let_def filter_rows_def)
  have r6: "rows (fold ensure_column FINAL_COLS df5) = []"
    using length_rows_fold_ensure[of FINAL_COLS df5] r5 by simp
  have "build_final_output_df rec nn =
      (if ''RMA Number'' \<notin> set (columns df3) then Inl (KeyError ''RMA Number'')
       else select_columns FINAL_COLS (fold ensure_column FINAL_COLS df5))"
    by (simp add: build_final_output_df_def Let_def p df3_def bl_def df5_def)
  then show ?thesis using c3 by (simp add: select_after_ensure r6)
qed

text \<open>
  Claim C7, as the code has it. The fallback patch returns its main table as it is when
  one of the two tables is empty. \<^verbatim>\<open>build_new_norm\<close> has no such exit: on an empty
  table it returns the table of the fourteen normalized columns with no row. On an
  empty main table that has the column \<^verbatim>\<open>RMA Number\<close>, \<^verbatim>\<open>build_final_output_df\<close>
  returns the table of the eleven final columns with no row. None of the three fails
  there.
\<close>

theorem empty_tables:
  "(df_empty rec \<or> df_empty nn \<longrightarrow> patch_rma_na_with_pr2 rec nn = rec)
   \<and> (df_empty df \<and> aligned df \<longrightarrow> build_new_norm df = \<lparr>columns = NORM_COLS, rows = []\<rparr>)
   \<and> (df_empty rec \<and> wf_table rec \<and> ''RMA Number'' \<in> set (columns rec)
        \<longrightarrow> build_final_output_df rec nn = Inr \<lparr>columns = FINAL_COLS, rows = []\<rparr>)"
proof (intro conjI impI)
  assume "df_empty rec \<or> df_empty nn"
  then show "patch_rma_na_with_pr2 rec nn = rec" by (simp add: patch_rma_na_with_pr2_def)
next
  assume "df_empty df \<and> aligned df"
  then show "build_new_norm df = \<lparr>columns = NORM_COLS, rows = []\<rparr>"
    using build_new_norm_empty by blast
next
  assume a: "df_empty rec \<and> wf_table rec \<and> ''RMA Number'' \<in> set (columns rec)"
  then have "rows rec = []" by (auto simp: df_empty_def)
  with a show "build_final_output_df rec nn = Inr \<lparr>columns = FINAL_COLS, rows = []\<rparr>"
    using build_final_no_rows by blast
qed

theorem blocked_identifiers_excluded_witness:
  "wf_table \<lparr>columns = [''Original RMA'', ''RMA Number''],
            rows = [[Str ''CONS PICK UP 71234567'', Str ''71234567''],
                    [Str ''RMA 71234567'', Str ''71234567''],
                    [Str ''RMA 61234567'', Str ''61234567'']]\<rparr>
   \<and> build_final_output_df
        \<lparr>columns = [''Original RMA'', ''RMA Number''],
            rows = [[Str ''CONS PICK UP 71234567'', Str ''71234567''],
                    [Str ''RMA 71234567'', Str ''71234567''],
                    [Str ''RMA 61234567'', Str ''61234567'']]\<rparr>
        \<lparr>columns = [''Original RMA'', ''RMA Number''],
            rows = [[Str ''CONS PICK UP 71234567'', Str ''71234567''],
                    [Str ''RMA 71234567'', Str ''71234567''],
                    [Str ''RMA 61234567'', Str ''61234567'']]\<rparr>
      = Inr \<lparr>columns = [''Manifest Date'', ''RMA Number'', ''Tracking Number - Details'', ''Status'',
                          ''Shipper Name'', ''Ship To'', ''Scheduled Delivery'', ''Date Delivered'',
                          ''Exception Description'', ''Exception Resolution'', ''Weight''],
              rows = [[Str [], Str ''61234567'', Str [], Str [], Str [], Str [], Str [], Str [],
                       Str [], Str [], Str []]]\<rparr>
   \<and> blocked \<lparr>columns = [''Original RMA'', ''RMA Number''],
            rows = [[Str ''CONS PICK UP 71234567'', Str ''71234567''],
                    [Str ''RMA 71234567'', Str ''71234567''],
                    [Str ''RMA 61234567'', Str ''61234567'']]\<rparr> = [''71234567'']
   \<and> row_get FINAL_COLS [Str [], Str ''61234567'', Str [], Str [], Str [], Str [], Str [], Str [],
                       Str [], Str [], Str []] ''RMA Number'' PyNone \<noteq> Str ''71234567''
   \<and> contains (upper (strip (py_str (or_empty (row_get [''Original RMA'', ''RMA Number'']
          [Str ''CONS PICK UP 71234567'', Str ''71234567''] ''Original RMA'' (Str []))))))
        ''CONS PICK UP''
   \<and> RMA_STRICT_RX_fullmatch (strip (py_str (or_empty (row_get [''Original RMA'', ''RMA Number'']
          [Str ''CONS PICK UP 71234567'', Str ''71234567''] ''RMA Number'' (Str [])))))
   \<and> row_get FINAL_COLS [Str [], Str ''61234567'', Str [], Str [], Str [], Str [], Str [], Str [],
                       Str [], Str [], Str []] ''RMA Number'' PyNone
         \<noteq> Str (strip (py_str (or_empty (row_get [''Original RMA'', ''RMA Number'']
                   [Str ''CONS PICK UP 71234567'', Str ''71234567''] ''RMA Number'' (Str [])))))"
proof -
  let ?nn = "\<lparr>columns = [''Original RMA'', ''RMA Number''],
            rows = [[Str ''CONS PICK UP 71234567'', Str ''71234567''],
                    [Str ''RMA 71234567'', Str ''71234567''],
                    [Str ''RMA 61234567'', Str ''61234567'']]\<rparr>"
  let ?row = "[Str [], Str ''61234567'', Str [], Str [], Str [], Str [], Str [], Str [],
                       Str [], Str [], Str []]"
  let ?out = "\<lparr>columns = [''Manifest Date'', ''RMA Number'', ''Tracking Number - Details'', ''Status'',
                          ''Shipper Name'', ''Ship To'', ''Scheduled Delivery'', ''Date Delivered'',
                          ''Exception Description'', ''Exception Resolution'', ''Weight''],
              rows = [?row]\<rparr>"
  let ?r0 = "[Str ''CONS PICK UP 71234567'', Str ''71234567'']"
  have a: "wf_table ?nn" by code_simp
  have e: "build_final_output_df ?nn ?nn = Inr ?out" by code_simp
  have b: "blocked ?nn = [''71234567'']" by code_simp
  have m: "''71234567'' \<in> set (blocked ?nn)" unfolding b by simp
  have row: "?row \<in> set (rows ?out)" by simp
  have r0: "?r0 \<in> set (rows ?nn)" by simp
  have cn: "columns ?nn = [''Original RMA'', ''RMA Number'']" by simp
  have k: "contains (upper (strip (py_str (or_empty (row_get (columns ?nn) ?r0 ''Original RMA'' (Str []))))))
        ''CONS PICK UP''" by code_simp
  have l: "RMA_STRICT_RX_fullmatch
        (strip (py_str (or_empty (row_get (columns ?nn) ?r0 ''RMA Number'' (Str [])))))" by code_simp
  note t = blocked_identifiers_excluded[OF e a a]
  have c: "row_get FINAL_COLS ?row ''RMA Number'' PyNone \<noteq> Str ''71234567''"
    by (rule t[THEN conjunct2, THEN bspec, OF row, THEN bspec, OF m])
  have c2: "row_get FINAL_COLS ?row ''RMA Number'' PyNone
           \<noteq> Str (strip (py_str (or_empty (row_get (columns ?nn) ?r0 ''RMA Number'' (Str [])))))"
    by (rule t[THEN conjunct1, THEN bspec, OF row, THEN bspec, OF r0, THEN mp, OF conjI[OF k l]])
  from a e b c k[unfolded cn] l[unfolded cn] c2[unfolded cn] show ?thesis by (intro conjI)
qed

theorem final_table_columns_complete_witness:
  "wf_table \<lparr>columns = [''Original RMA'', ''RMA Number''], rows = [[Str ''RMA 61234567'', Str ''61234567'']]\<rparr>
   \<and> build_final_output_df
        \<lparr>columns = [''Original RMA'', ''RMA Number''], rows = [[Str ''RMA 61234567'', Str ''61234567'']]\<rparr>
        \<lparr>columns = [''Original RMA'', ''RMA Number''], rows = [[Str ''RMA 61234567'', Str ''61234567'']]\<rparr>
      = Inr \<lparr>columns = [''Manifest Date'', ''RMA Number'', ''Tracking Number - Details'', ''Status'',
                          ''Shipper Name'', ''Ship To'', ''Scheduled Delivery'', ''Date Delivered'',
                          ''Exception Description'', ''Exception Resolution'', ''Weight''],
              rows = [[Str [], Str ''61234567'', Str [], Str [], Str [], Str [], Str [], Str [],
                       Str [], Str [], Str []]]\<rparr>
   \<and> length [Str [], Str ''61234567'', Str [], Str [], Str [], Str [], Str [], Str [],
                       Str [], Str [], Str []] = 11
   \<and> (\<exists>s. row_get FINAL_COLS [Str [], Str ''61234567'', Str [], Str [], Str [], Str [], Str [], Str [],
                       Str [], Str [], Str []] ''RMA Number'' PyNone = Str s
          \<and> RMA_STRICT_RX_fullmatch s \<and> s \<noteq> [])
   \<and> ''Weight'' \<in> set FINAL_COLS
   \<and> ''Weight'' \<notin> set [''Original RMA'', ''RMA Number'']
   \<and> row_get FINAL_COLS [Str [], Str ''61234567'', Str [], Str [], Str [], Str [], Str [], Str [],
                       Str [], Str [], Str []] ''Weight'' PyNone = Str []"
proof -
  let ?nn = "\<lparr>columns = [''Original RMA'', ''RMA Number''], rows = [[Str ''RMA 61234567'', Str ''61234567'']]\<rparr>"
  let ?row = "[Str [], Str ''61234567'', Str [], Str [], Str [], Str [], Str [], Str [],
                       Str [], Str [], Str []]"
  let ?out = "\<lparr>columns = [''Manifest Date'', ''RMA Number'', ''Tracking Number - Details'', ''Status'',
                          ''Shipper Name'', ''Ship To'', ''Scheduled Delivery'', ''Date Delivered'',
                          ''Exception Description'', ''Exception Resolution'', ''Weight''],
              rows = [?row]\<rparr>"
  have a: "wf_table ?nn" by code_simp
  have e: "build_final_output_df ?nn ?nn = Inr ?out" by code_simp
  have row: "?row \<in> set (rows ?out)" by simp
  have w: "''Weight'' \<in> set FINAL_COLS" by code_simp
  have nw: "''Weight'' \<noteq> ''RMA Number'' \<and> ''Weight'' \<notin> set (columns ?nn)" by simp
  have nw2: "''Weight'' \<notin> set [''Original RMA'', ''RMA Number'']" by simp
  note t = final_table_columns_complete[OF e a, THEN conjunct2, THEN conjunct2, THEN bspec, OF row]
  have 1: "length ?row = 11" by (rule t[THEN conjunct1])
  have 2: "\<exists>s. row_get FINAL_COLS ?row ''RMA Number'' PyNone = Str s
          \<and> RMA_STRICT_RX_fullmatch s \<and> s \<noteq> []"
    by (rule t[THEN conjunct2, THEN conjunct1])
  have 3: "row_get FINAL_COLS ?row ''Weight'' PyNone = Str []"
    by (rule t[THEN conjunct2, THEN conjunct2, THEN bspec, OF w, THEN mp, OF nw])
  from a e 1 2 w nw2 3 show ?thesis by (intro conjI)
qed

text \<open>
  The claim C6 as it is worded fails on the repository's own test record, taken through
  the application's calls \<^verbatim>\<open>build_final_output_df(new_norm_df, new_norm_df)\<close>: the
  normalized table has no column \<^verbatim>\<open>Tracking Number - Details\<close>, and the final table
  holds the empty text there.
\<close>

theorem final_table_empty_cell_counterexample:
  "build_final_output_df
     (build_new_norm \<lparr>columns = [''Manifest Date'', ''RMA Number'', ''Tracking Number'', ''Status'',
         ''Shipper Name'', ''Ship To'', ''Scheduled Delivery'', ''Date Delivered'',
         ''Exception Description'', ''Exception Resolution'', ''Ship To Location'', ''Weight'',
         ''Package Reference No. 2''],
       rows = [[Str ''2024-01-10'', Str ''RMA 67024814'', Str ''1Z1234567890123456'', Str ''In Transit'',
         Str ''Rockwell Automation'', Str ''Customer XYZ'', Str ''2024-01-15'', Str [], Str [], Str [],
         Str ''PL'', Str ''1.5'', Str []]]\<rparr>)
     (build_new_norm \<lparr>columns = [''Manifest Date'', ''RMA Number'', ''Tracking Number'', ''Status'',
         ''Shipper Name'', ''Ship To'', ''Scheduled Delivery'', ''Date Delivered'',
         ''Exception Description'', ''Exception Resolution'', ''Ship To Location'', ''Weight'',
         ''Package Reference No. 2''],
       rows = [[Str ''2024-01-10'', Str ''RMA 67024814'', Str ''1Z1234567890123456'', Str ''In Transit'',
         Str ''Rockwell Automation'', Str ''Customer XYZ'', Str ''2024-01-15'', Str [], Str [], Str [],
         Str ''PL'', Str ''1.5'', Str []]]\<rparr>)
   = Inr \<lparr>columns = [''Manifest Date'', ''RMA Number'', ''Tracking Number - Details'', ''Status'',
                     ''Shipper Name'', ''Ship To'', ''Scheduled Delivery'', ''Date Delivered'',
                     ''Exception Description'', ''Exception Resolution'', ''Weight''],
           rows = [[Str ''2024-01-10'', Str ''67024814'', Str [], Str ''In Transit'',
                    Str ''Rockwell Automation'', Str ''Customer XYZ'', Str ''2024-01-15'', Str ''N/A'',
                    Str ''N/A'', Str ''N/A'', Str ''1.5'']]\<rparr>
   \<and> row_get FINAL_COLS [Str ''2024-01-10'', Str ''67024814'', Str [], Str ''In Transit'',
                    Str ''Rockwell Automation'', Str ''Customer XYZ'', Str ''2024-01-15'', Str ''N/A'',
                    Str ''N/A'', Str ''N/A'', Str ''1.5''] ''Tracking Number - Details'' PyNone = Str []"
  by code_simp

theorem empty_tables_witness:
  "df_empty \<lparr>columns = [''Tracking Number''], rows = []\<rparr>
   \<and> patch_rma_na_with_pr2 \<lparr>columns = [''RMA Number''], rows = [[Str ''N/A'']]\<rparr>
         \<lparr>columns = [''Tracking Number''], rows = []\<rparr>
       = \<lparr>columns = [''RMA Number''], rows = [[Str ''N/A'']]\<rparr>
   \<and> df_empty \<lparr>columns = [], rows = [[], []]\<rparr> \<and> aligned \<lparr>columns = [], rows = [[], []]\<rparr>
   \<and> build_new_norm \<lparr>columns = [], rows = [[], []]\<rparr> = \<lparr>columns = NORM_COLS, rows = []\<rparr>
   \<and> df_empty \<lparr>columns = [''RMA Number''], rows = []\<rparr>
   \<and> wf_table \<lparr>columns = [''RMA Number''], rows = []\<rparr>
   \<and> ''RMA Number'' \<in> set (columns \<lparr>columns = [''RMA Number''], rows = []\<rparr>)
   \<and> build_final_output_df \<lparr>columns = [''RMA Number''], rows = []\<rparr>
         \<lparr>columns = [''Tracking Number''], rows = []\<rparr>
       = Inr \<lparr>columns = FINAL_COLS, rows = []\<rparr>"
proof -
  let ?e = "\<lparr>columns = [''Tracking Number''], rows = []\<rparr>"
  let ?rec = "\<lparr>columns = [''RMA Number''], rows = [[Str ''N/A'']]\<rparr>"
  let ?z = "\<lparr>columns = [], rows = [[], []]\<rparr>"
  let ?m = "\<lparr>columns = [''RMA Number''], rows = []\<rparr>"
  have a: "df_empty ?e" by (simp add: df_empty_def)
  have b: "df_empty ?z" by (simp add: df_empty_def)
  have c: "aligned ?z" by (simp add: aligned_def)
  have d: "df_empty ?m" by (simp add: df_empty_def)
  have f: "''RMA Number'' \<in> set (columns ?m)" by simp
  have w: "wf_table ?m" by (simp add: wf_table_def aligned_def)
  note t = empty_tables
  have 1: "patch_rma_na_with_pr2 ?rec ?e = ?rec"
    by (rule t[of ?rec ?e, THEN conjunct1, THEN mp, OF disjI2[OF a]])
  have 2: "build_new_norm ?z = \<lparr>columns = NORM_COLS, rows = []\<rparr>"
    by (rule t[of _ _ ?z, THEN conjunct2, THEN conjunct1, THEN mp, OF conjI[OF b c]])
  have 3: "build_final_output_df ?m ?e = Inr \<lparr>columns = FINAL_COLS, rows = []\<rparr>"
    by (rule t[of ?m ?e, THEN conjunct2, THEN conjunct2, THEN mp, OF conjI[OF d conjI[OF w f]]])
  from a 1 b c 2 d w f 3 show ?thesis by (intro conjI)
qed

text \<open>
  The claim C7 as it is worded fails on the table with no column and no row:
  \<^verbatim>\<open>build_new_norm\<close> does not return it, but a table with fourteen columns.
\<close>

theorem build_new_norm_empty_not_input_counterexample:
  "df_empty \<lparr>columns = [], rows = []\<rparr>
   \<and> build_new_norm \<lparr>columns = [], rows = []\<rparr>
       = \<lparr>columns = [''Manifest Date'', ''Original RMA'', ''RMA Number'', ''Tracking Number'', ''Status'',
                      ''Shipper Name'', ''Ship To'', ''Scheduled Delivery'', ''Date Delivered'',
                      ''Exception Description'', ''Exception Resolution'', ''Ship To Location'',
                      ''Weight'', ''Package Reference No. 2''],
           rows = []\<rparr>
   \<and> build_new_norm \<lparr>columns = [], rows = []\<rparr> \<noteq> \<lparr>columns = [], rows = []\<rparr>"
  by code_simp

text \<open>An empty main table without the column \<^verbatim>\<open>RMA Number\<close> makes the column read fail.\<close>

lemma build_final_output_df_without_rma_column:
  "build_final_output_df \<lparr>columns = [], rows = []\<rparr> nn = Inl (KeyError ''RMA Number'')"
  by (simp add: build_final_output_df_def patch_rma_na_with_pr2_def df_empty_def drop_if_present_def
      normalize_rma_column_inplace_def)

end
